theory Spec2Isabelle
  imports Complex_Main "HOL-Library.AList"
begin

section \<open>Provider adapters\<close>

text \<open>
  Every adapter class (\<^verbatim>\<open>LlamaProvider\<close>, \<^verbatim>\<open>GeminiProvider\<close>, \<^verbatim>\<open>OpenAIProvider\<close>,
  \<^verbatim>\<open>AnthropicProvider\<close>) implements the interface \<^verbatim>\<open>LLMProvider\<close>. An instance is a
  record of its fields plus the class it was built from, which selects its methods.
  An optional string (\<^verbatim>\<open>apiKey?: string\<close>) is a \<open>string option\<close>; JavaScript treats both
  \<^verbatim>\<open>undefined\<close> and the empty string as false in a condition.
\<close>

datatype provider_type = Local | External

datatype adapter_class = Llama | Gemini | OpenAI | Anthropic

record llm_provider =
  name :: string
  ptype :: provider_type
  baseUrl :: string
  apiKey :: "string option"
  models :: "string list"
  defaultModel :: string
  adapter :: adapter_class

definition truthy :: "string option \<Rightarrow> bool" where
  "truthy v = (case v of None \<Rightarrow> False | Some s \<Rightarrow> s \<noteq> [])"

text \<open>
  What the constructor of \<^verbatim>\<open>LlamaProvider\<close> reads from its surroundings: whether
  \<^verbatim>\<open>window\<close> exists, the build-time variable \<^verbatim>\<open>VITE_OLLAMA_URL\<close> and the host name of
  the page.
\<close>

record browser_env =
  window_defined :: bool
  vite_ollama_url :: "string option"
  hostname :: string

definition LlamaProvider :: "browser_env \<Rightarrow> string option \<Rightarrow> llm_provider" where
  "LlamaProvider env baseUrl_arg =
     \<lparr> name = ''Llama (Ollama)'',
       ptype = Local,
       baseUrl =
         (case (if truthy baseUrl_arg then baseUrl_arg else None) of
            Some u \<Rightarrow> u
          | None \<Rightarrow>
             (case (if window_defined env \<and> truthy (vite_ollama_url env)
                    then vite_ollama_url env else None) of
                Some u \<Rightarrow> u
              | None \<Rightarrow>
                 (if window_defined env \<and> hostname env \<noteq> ''localhost''
                  then ''/api/llama'' else ''http://localhost:11434''))),
       apiKey = None,
       models = [''llama3.1'', ''llama3.1:8b'', ''llama3.1:70b''],
       defaultModel = ''llama3.1'',
       adapter = Llama \<rparr>"

definition GeminiProvider :: "string option \<Rightarrow> llm_provider" where
  "GeminiProvider key =
     \<lparr> name = ''Google Gemini'',
       ptype = External,
       baseUrl = ''https://generativelanguage.googleapis.com/v1beta'',
       apiKey = key,
       models = [''gemini-1.5-pro'', ''gemini-1.5-flash'', ''gemini-pro''],
       defaultModel = ''gemini-1.5-flash'',
       adapter = Gemini \<rparr>"

definition OpenAIProvider :: "string option \<Rightarrow> llm_provider" where
  "OpenAIProvider key =
     \<lparr> name = ''OpenAI'',
       ptype = External,
       baseUrl = ''https://api.openai.com/v1'',
       apiKey = key,
       models = [''gpt-4'', ''gpt-4-turbo'', ''gpt-3.5-turbo''],
       defaultModel = ''gpt-3.5-turbo'',
       adapter = OpenAI \<rparr>"

definition AnthropicProvider :: "string option \<Rightarrow> llm_provider" where
  "AnthropicProvider key =
     \<lparr> name = ''Anthropic Claude'',
       ptype = External,
       baseUrl = ''https://api.anthropic.com/v1'',
       apiKey = key,
       models = [''claude-3-5-sonnet-20241022'', ''claude-3-5-haiku-20241022'',
                 ''claude-3-opus-20240229''],
       defaultModel = ''claude-3-5-sonnet-20241022'',
       adapter = Anthropic \<rparr>"

subsection \<open>The availability probe\<close>

text \<open>
  \<^verbatim>\<open>await fetch(...)\<close> either rejects (a network error, carried as its message) or
  resolves to a response with an HTTP status; \<^verbatim>\<open>response.ok\<close> is true exactly for
  the statuses 200 to 299. A computation that may throw returns \<open>string + 'a\<close>, with
  \<open>Inl\<close> the thrown error, and \<^verbatim>\<open>try { ... } catch (error) { ... }\<close> is \<open>try_catch\<close>.
\<close>

datatype fetch_outcome = NetworkError string | HttpResponse nat

definition response_ok :: "nat \<Rightarrow> bool" where
  "response_ok status = (200 \<le> status \<and> status \<le> 299)"

definition await_fetch :: "fetch_outcome \<Rightarrow> string + nat" where
  "await_fetch fo = (case fo of NetworkError e \<Rightarrow> Inl e | HttpResponse status \<Rightarrow> Inr status)"

definition try_catch :: "(string + 'a) \<Rightarrow> (string \<Rightarrow> string + 'a) \<Rightarrow> string + 'a" where
  "try_catch body handler = (case body of Inl e \<Rightarrow> handler e | Inr v \<Rightarrow> Inr v)"

definition LlamaProvider_isAvailable :: "llm_provider \<Rightarrow> fetch_outcome \<Rightarrow> string + bool" where
  "LlamaProvider_isAvailable p fo =
     try_catch
       (case await_fetch fo of Inl e \<Rightarrow> Inl e | Inr status \<Rightarrow> Inr (response_ok status))
       (\<lambda>error. Inr False)"

definition OpenAIProvider_isAvailable :: "llm_provider \<Rightarrow> fetch_outcome \<Rightarrow> string + bool" where
  "OpenAIProvider_isAvailable p fo =
     (if \<not> truthy (apiKey p) then Inr False
      else try_catch
             (case await_fetch fo of Inl e \<Rightarrow> Inl e | Inr status \<Rightarrow> Inr (response_ok status))
             (\<lambda>error. Inr False))"

definition GeminiProvider_isAvailable :: "llm_provider \<Rightarrow> fetch_outcome \<Rightarrow> string + bool" where
  "GeminiProvider_isAvailable p fo =
     (if \<not> truthy (apiKey p) then Inr False
      else try_catch
             (case await_fetch fo of Inl e \<Rightarrow> Inl e | Inr status \<Rightarrow> Inr (response_ok status))
             (\<lambda>error. Inr False))"

definition AnthropicProvider_isAvailable :: "llm_provider \<Rightarrow> fetch_outcome \<Rightarrow> string + bool" where
  "AnthropicProvider_isAvailable p fo =
     (if \<not> truthy (apiKey p) then Inr False
      else try_catch
             (case await_fetch fo of Inl e \<Rightarrow> Inl e | Inr status \<Rightarrow> Inr (response_ok status))
             (\<lambda>error. Inr False))"

text \<open>Method dispatch on the class of the instance.\<close>

definition isAvailable :: "llm_provider \<Rightarrow> fetch_outcome \<Rightarrow> string + bool" where
  "isAvailable p fo =
     (case adapter p of
        Llama \<Rightarrow> LlamaProvider_isAvailable p fo
      | Gemini \<Rightarrow> GeminiProvider_isAvailable p fo
      | OpenAI \<Rightarrow> OpenAIProvider_isAvailable p fo
      | Anthropic \<Rightarrow> AnthropicProvider_isAvailable p fo)"

text \<open>The failure modes of a probe: no credential on an adapter that needs one, a
  rejected \<^verbatim>\<open>fetch\<close>, or a response outside 200 to 299.\<close>

definition probe_fails :: "llm_provider \<Rightarrow> fetch_outcome \<Rightarrow> bool" where
  "probe_fails p fo =
     ((adapter p \<noteq> Llama \<and> \<not> truthy (apiKey p))
      \<or> (case fo of NetworkError e \<Rightarrow> True | HttpResponse status \<Rightarrow> \<not> response_ok status))"

section \<open>The provider registry (LLMProviderManager)\<close>

text \<open>
  \<^verbatim>\<open>providers\<close> is a JavaScript \<^verbatim>\<open>Map\<close>: an association list in insertion order, where
  \<^verbatim>\<open>set\<close> on a present key replaces the value in place and on an absent key appends
  (\<open>AList.update\<close>), \<^verbatim>\<open>has\<close> tests the keys and \<^verbatim>\<open>get\<close> is \<open>map_of\<close>.
  \<^verbatim>\<open>Partial<LLMConfig>\<close> is a record of options, \<open>None\<close> for an absent field.
\<close>

record llm_config =
  cfg_provider :: string
  cfg_model :: string
  cfg_temperature :: real
  cfg_maxTokens :: nat
  cfg_apiKey :: "string option"
  cfg_url :: "string option"

record partial_config =
  new_provider :: "string option"
  new_model :: "string option"
  new_temperature :: "real option"
  new_maxTokens :: "nat option"
  new_apiKey :: "string option"
  new_url :: "string option"

record manager =
  providers :: "(string \<times> llm_provider) list"
  m_currentProvider :: string
  m_config :: llm_config

definition has :: "(string \<times> llm_provider) list \<Rightarrow> string \<Rightarrow> bool" where
  "has ps k = (k \<in> set (map fst ps))"

definition initializeProviders :: "browser_env \<Rightarrow> manager \<Rightarrow> manager" where
  "initializeProviders env m =
     (let m1 = m\<lparr>providers := AList.update ''llama'' (LlamaProvider env None) (providers m)\<rparr>;
          m2 = m1\<lparr>providers :=
                 AList.update ''gemini'' (GeminiProvider (cfg_apiKey (m_config m1))) (providers m1)\<rparr>
      in m2\<lparr>providers :=
               AList.update ''openai'' (OpenAIProvider (cfg_apiKey (m_config m2))) (providers m2)\<rparr>)"

definition new_LLMProviderManager :: "browser_env \<Rightarrow> llm_config \<Rightarrow> manager" where
  "new_LLMProviderManager env cfg =
     initializeProviders env \<lparr>providers = [], m_currentProvider = ''llama'', m_config = cfg\<rparr>"

definition setProvider :: "string \<Rightarrow> manager \<Rightarrow> bool \<times> manager" where
  "setProvider providerName m =
     (if has (providers m) providerName
      then (True, m\<lparr>m_currentProvider := providerName\<rparr>)
      else (False, m))"

definition getCurrentProvider :: "manager \<Rightarrow> llm_provider option" where
  "getCurrentProvider m = map_of (providers m) (m_currentProvider m)"

definition merge_config :: "llm_config \<Rightarrow> partial_config \<Rightarrow> llm_config" where
  "merge_config c n =
     \<lparr> cfg_provider = (case new_provider n of None \<Rightarrow> cfg_provider c | Some v \<Rightarrow> v),
       cfg_model = (case new_model n of None \<Rightarrow> cfg_model c | Some v \<Rightarrow> v),
       cfg_temperature = (case new_temperature n of None \<Rightarrow> cfg_temperature c | Some v \<Rightarrow> v),
       cfg_maxTokens = (case new_maxTokens n of None \<Rightarrow> cfg_maxTokens c | Some v \<Rightarrow> v),
       cfg_apiKey = (case new_apiKey n of None \<Rightarrow> cfg_apiKey c | Some v \<Rightarrow> Some v),
       cfg_url = (case new_url n of None \<Rightarrow> cfg_url c | Some v \<Rightarrow> Some v) \<rparr>"

definition updateConfig :: "browser_env \<Rightarrow> partial_config \<Rightarrow> manager \<Rightarrow> manager" where
  "updateConfig env newConfig m =
     (let m0 = m\<lparr>m_config := merge_config (m_config m) newConfig\<rparr>;
          m1 = (if truthy (new_apiKey newConfig)
                then (let g = (if has (providers m0) ''gemini''
                               then m0\<lparr>providers := AList.update ''gemini''
                                         (GeminiProvider (new_apiKey newConfig)) (providers m0)\<rparr>
                               else m0)
                      in if has (providers g) ''openai''
                         then g\<lparr>providers := AList.update ''openai''
                                  (OpenAIProvider (new_apiKey newConfig)) (providers g)\<rparr>
                         else g)
                else m0)
      in if truthy (new_url newConfig) \<and> has (providers m1) ''llama''
         then m1\<lparr>providers := AList.update ''llama'' (LlamaProvider env None) (providers m1)\<rparr>
         else m1)"

subsection \<open>Generation through the registry\<close>

datatype role = User | Assistant | System

record llm_request =
  req_messages :: "(role \<times> string) list"
  req_model :: "string option"
  req_temperature :: "real option"
  req_maxTokens :: "nat option"

record llm_response =
  resp_content :: string
  resp_model :: "string option"
  resp_finishReason :: "string option"

datatype gen_error = ProviderNotFound string | AdapterError string

text \<open>
  \<^verbatim>\<open>provider.generate\<close> talks to the backend; its result for a request is the
  parameter \<open>backend\<close> (the thrown error or the response). \<^verbatim>\<open>generate\<close> of the manager
  throws its own error when no adapter is registered under the current id.
\<close>

definition generate ::
  "manager \<Rightarrow> llm_request \<Rightarrow> (llm_provider \<Rightarrow> llm_request \<Rightarrow> string + llm_response)
     \<Rightarrow> gen_error + llm_response" where
  "generate m request backend =
     (case getCurrentProvider m of
        None \<Rightarrow> Inl (ProviderNotFound (m_currentProvider m))
      | Some provider \<Rightarrow>
          (let llmRequest =
                 \<lparr> req_messages = req_messages request,
                   req_model = Some (if truthy (req_model request) then the (req_model request)
                                     else cfg_model (m_config m)),
                   req_temperature = Some (case req_temperature request of
                                             None \<Rightarrow> cfg_temperature (m_config m) | Some t \<Rightarrow> t),
                   req_maxTokens = Some (case req_maxTokens request of
                                           None \<Rightarrow> cfg_maxTokens (m_config m) | Some t \<Rightarrow> t) \<rparr>
           in case backend provider llmRequest of
                Inl e \<Rightarrow> Inl (AdapterError e)
              | Inr response \<Rightarrow>
                  Inr \<lparr> resp_content = resp_content response,
                        resp_model = resp_model response,
                        resp_finishReason = resp_finishReason response \<rparr>))"

text \<open>
  \<^verbatim>\<open>Promise.all\<close>: the results in order, or a rejection when one of the promises
  rejects. \<^verbatim>\<open>getAvailableProviders\<close> probes every registered adapter; \<open>probe nm\<close> is
  the outcome of the request sent for the adapter registered as \<open>nm\<close>.
\<close>

fun promise_all :: "(string + 'a) list \<Rightarrow> string + 'a list" where
  "promise_all [] = Inr []"
| "promise_all (p # ps) =
     (case p of
        Inl e \<Rightarrow> Inl e
      | Inr v \<Rightarrow> (case promise_all ps of Inl e \<Rightarrow> Inl e | Inr vs \<Rightarrow> Inr (v # vs)))"

definition getAvailableProviders ::
  "manager \<Rightarrow> (string \<Rightarrow> fetch_outcome) \<Rightarrow> string + (string \<times> bool \<times> provider_type) list" where
  "getAvailableProviders m probe =
     promise_all
       (map (\<lambda>(nm, provider).
               case isAvailable provider (probe nm) of
                 Inl e \<Rightarrow> Inl e
               | Inr available \<Rightarrow> Inr (nm, available, ptype provider))
            (providers m))"

text \<open>
  The states a manager can be in: built by the constructor, then any sequence of
  \<^verbatim>\<open>setProvider\<close> and \<^verbatim>\<open>updateConfig\<close> calls (the only methods that assign a field).
\<close>

inductive reachable_mgr :: "browser_env \<Rightarrow> manager \<Rightarrow> bool" for env :: browser_env where
  rm_new: "reachable_mgr env (new_LLMProviderManager env cfg)"
| rm_setProvider: "reachable_mgr env m \<Longrightarrow> reachable_mgr env (snd (setProvider providerName m))"
| rm_updateConfig: "reachable_mgr env m \<Longrightarrow> reachable_mgr env (updateConfig env newConfig m)"

text \<open>The address the Llama adapter posts a generation request to
  (\<^verbatim>\<open>`${this.baseUrl}/api/generate`\<close>).\<close>

definition LlamaProvider_generate_url :: "llm_provider \<Rightarrow> string" where
  "LlamaProvider_generate_url p = baseUrl p @ ''/api/generate''"

section \<open>Data model of the queue hook (useBrainstormQueue)\<close>

text \<open>
  A \<^verbatim>\<open>Date\<close> is a number of milliseconds since the epoch. \<^verbatim>\<open>JSON.stringify\<close> writes a
  \<^verbatim>\<open>Date\<close> as its ISO text, which has millisecond precision, and \<^verbatim>\<open>new Date(text)\<close>
  reads it back: \<open>IsoString t\<close> stands for the ISO text of the instant \<open>t\<close>. A field
  declared \<^verbatim>\<open>Date\<close> holds a \<open>DateObj\<close> while the state is built in memory; after a load
  from storage it holds whatever \<^verbatim>\<open>loadFromStorage\<close> put there.
\<close>

datatype time_value = DateObj int | IsoString int

definition toJSON :: "time_value \<Rightarrow> time_value" where
  "toJSON v = (case v of DateObj t \<Rightarrow> IsoString t | IsoString t \<Rightarrow> IsoString t)"

definition new_Date :: "time_value \<Rightarrow> time_value" where
  "new_Date v = (case v of DateObj t \<Rightarrow> DateObj t | IsoString t \<Rightarrow> DateObj t)"

definition is_time_value :: "time_value \<Rightarrow> bool" where
  "is_time_value v = (case v of DateObj t \<Rightarrow> True | IsoString t \<Rightarrow> False)"

text \<open>
  A value produced by \<^verbatim>\<open>JSON.parse\<close>. A number is \<open>JNum m e\<close>, denoting \<open>m * 10 ^ e\<close>;
  a string is its UTF-8 bytes; an object keeps its members in source order.
\<close>

datatype json =
    JNull
  | JBool bool
  | JNum int int
  | JStr string
  | JArr "json list"
  | JObj "(string \<times> json) list"

record message =
  msg_id :: string
  content :: string
  timestamp :: time_value
  msg_type :: role
  processed :: bool

record queue_item =
  qid :: string
  qmessage :: message
  priority :: int
  addedAt :: time_value

record brainstorm_stats =
  totalMessages :: int
  processedMessages :: int
  pendingMessages :: int
  ideasGenerated :: int
  lastProcessedAt :: "time_value option"

record brainstorm_context =
  bc_conversationHistory :: "message list"
  bc_currentTopic :: string
  bc_generatedIdeas :: "string list"
  lastContextUpdate :: time_value

record agent_message =
  am_id :: string
  am_role :: role
  am_content :: string
  am_timestamp :: time_value

datatype insight_category = Technical | Creative | Strategic | Practical

record insight =
  in_id :: string
  in_content :: string
  in_category :: insight_category
  in_confidence :: real
  sourceMessageId :: string
  extractedAt :: time_value

datatype idea_priority = High | Medium | Low

record idea =
  idea_id :: string
  idea_title :: string
  idea_description :: string
  idea_category :: string
  idea_priority :: idea_priority
  relatedInsights :: "string list"
  generatedAt :: time_value

datatype point_type = InsightPoint | IdeaPoint | ActionPoint | QuestionPoint

record summary_point =
  sp_id :: string
  sp_title :: string
  sp_content :: string
  sp_type :: point_type
  sp_priority :: int
  relatedMessages :: "string list"

datatype strategy = Accumulate | Summarize | Generate

record agent_context =
  sessionId :: string
  conversationHistory :: "agent_message list"
  currentTopic :: string
  extractedInsights :: "insight list"
  generatedIdeas :: "idea list"
  summaryPoints :: "summary_point list"
  ac_lastProcessedAt :: time_value
  processingStrategy :: strategy

text \<open>
  \<^verbatim>\<open>MarkdownSummary\<close>. Its fields other than \<^verbatim>\<open>createdAt\<close> are taken unchecked from the
  parsed model response (\<^verbatim>\<open>parseMarkdownSummary\<close> returns \<^verbatim>\<open>any\<close>), so at run time they
  are arbitrary JSON values.
\<close>

record markdown_summary =
  ms_title :: json
  ms_overview :: json
  keyInsights :: json
  ms_generatedIdeas :: json
  actionItems :: json
  questions :: json
  nextSteps :: json
  createdAt :: time_value

text \<open>
  The state of the hook: the values held by \<^verbatim>\<open>useState\<close> and \<^verbatim>\<open>useRef\<close>, followed by
  what its asynchronous code has pending: the local variable \<^verbatim>\<open>queuedMessages\<close> of a
  \<^verbatim>\<open>processQueue\<close> call suspended at its \<^verbatim>\<open>await\<close>, the calls of \<^verbatim>\<open>llmManager.generate\<close>
  it has issued, the number of scheduled \<^verbatim>\<open>setTimeout\<close> callbacks of its \<^verbatim>\<open>finally\<close>
  block, and the errors written with \<^verbatim>\<open>console.error\<close>.
\<close>

datatype promise_outcome = Fulfilled | Rejected gen_error

record hook_state =
  queue :: "queue_item list"
  messages :: "message list"
  stats :: brainstorm_stats
  context_st :: brainstorm_context
  agentContext :: agent_context
  isProcessing :: bool
  currentProvider :: string
  availableProviders :: "(string \<times> bool \<times> provider_type) list"
  markdownSummary :: "markdown_summary option"
  autoProcess :: bool
  processingRef :: bool
  llmManager :: manager
  inflight :: "message list option"
  issued :: "llm_request list"
  reenqueue_timers :: nat
  console_errors :: "gen_error list"

text \<open>
  The initial state. \<open>sid\<close> is the session id (\<^verbatim>\<open>`session_${Date.now()}`\<close>) and \<open>t0\<close>
  the time of the first render.
\<close>

definition initial_state :: "browser_env \<Rightarrow> string \<Rightarrow> int \<Rightarrow> hook_state" where
  "initial_state env sid t0 =
     \<lparr> queue = [],
       messages = [],
       stats = \<lparr> totalMessages = 0, processedMessages = 0, pendingMessages = 0,
                 ideasGenerated = 0, lastProcessedAt = None \<rparr>,
       context_st = \<lparr> bc_conversationHistory = [], bc_currentTopic = '''',
                      bc_generatedIdeas = [], lastContextUpdate = DateObj t0 \<rparr>,
       agentContext = \<lparr> sessionId = sid, conversationHistory = [], currentTopic = '''',
                        extractedInsights = [], generatedIdeas = [], summaryPoints = [],
                        ac_lastProcessedAt = DateObj t0, processingStrategy = Accumulate \<rparr>,
       isProcessing = False,
       currentProvider = ''llama'',
       availableProviders = [],
       markdownSummary = None,
       autoProcess = True,
       processingRef = False,
       llmManager = new_LLMProviderManager env
                      \<lparr> cfg_provider = ''llama'', cfg_model = ''llama3.1'',
                        cfg_temperature = 0.7, cfg_maxTokens = 2000,
                        cfg_apiKey = None, cfg_url = None \<rparr>,
       inflight = None,
       issued = [],
       reenqueue_timers = 0,
       console_errors = [] \<rparr>"

section \<open>Operations of the hook\<close>

text \<open>
  Identifiers are built from \<^verbatim>\<open>Date.now()\<close> and \<^verbatim>\<open>Math.random()\<close>; the operations take
  them, like the current time, as arguments.
\<close>

definition addMessage :: "string \<Rightarrow> string \<Rightarrow> int \<Rightarrow> string \<Rightarrow> hook_state \<Rightarrow> hook_state" where
  "addMessage mid qi now text s =
     (let message = \<lparr> msg_id = mid, content = text, timestamp = DateObj now,
                       msg_type = User, processed = False \<rparr>;
          queueItem = \<lparr> qid = qi, qmessage = message, priority = 1, addedAt = DateObj now \<rparr>
      in s\<lparr> queue := queue s @ [queueItem],
            messages := messages s @ [message],
            stats := (stats s)\<lparr> totalMessages := totalMessages (stats s) + 1,
                                pendingMessages := pendingMessages (stats s) + 1 \<rparr> \<rparr>)"

definition unprocessed_user :: "message \<Rightarrow> bool" where
  "unprocessed_user msg = (msg_type msg = User \<and> \<not> processed msg)"

subsection \<open>The batch cycle\<close>

definition to_agent_message :: "message \<Rightarrow> agent_message" where
  "to_agent_message msg =
     \<lparr> am_id = msg_id msg,
       am_role = (if msg_type msg = Assistant then Assistant else User),
       am_content = content msg,
       am_timestamp = timestamp msg \<rparr>"

definition role_name :: "role \<Rightarrow> string" where
  "role_name r = (case r of User \<Rightarrow> ''user'' | Assistant \<Rightarrow> ''assistant'' | System \<Rightarrow> ''system'')"

fun join :: "string \<Rightarrow> string list \<Rightarrow> string" where
  "join sep [] = []"
| "join sep [x] = x"
| "join sep (x # y # ys) = x @ sep @ join sep (y # ys)"

function show_nat :: "nat \<Rightarrow> string" where
  "show_nat n =
     (if n < 10 then [char_of (48 + n)]
      else show_nat (n div 10) @ [char_of (48 + n mod 10)])"
  by pat_completeness auto
termination
  by (relation "measure id") auto

definition comprehensivePrompt :: "agent_message list \<Rightarrow> agent_message list \<Rightarrow> string" where
  "comprehensivePrompt history agentMessages =
     ''You are a helpful brainstorming assistant. Continue this brainstorming conversation by responding to the user's latest ideas while considering the full conversation context.\<newline>\<newline>Complete conversation history:\<newline>''
     @ join ''\<newline>'' (map (\<lambda>m. role_name (am_role m) @ '': '' @ am_content m) history)
     @ ''\<newline>\<newline>Latest user messages (from queue):\<newline>''
     @ join ''\<newline>''
         (map (\<lambda>(index, msg). show_nat (index + 1) @ ''. '' @ am_content msg)
              (enumerate 0 agentMessages))
     @ ''\<newline>\<newline>Please:\<newline>1. Acknowledge their latest ideas while referencing the conversation context\<newline>2. Find connections between their new ideas and previous discussion\<newline>3. Build upon the brainstorming session so far\<newline>4. Ask thoughtful follow-up questions to help them explore further\<newline>5. Suggest how they might combine or build upon all their ideas\<newline>6. Be encouraging and help them think deeper about their concepts\<newline>\<newline>Respond naturally and conversationally. Don't use any special formatting or JSON. Just be a helpful brainstorming partner who remembers the full conversation.''"

definition system_instruction :: string where
  "system_instruction = ''You are a helpful brainstorming assistant that maintains conversation context and responds naturally to help users explore their ideas. You remember the full conversation history and build upon previous discussions.''"

text \<open>
  \<^verbatim>\<open>processQueue\<close> up to its \<^verbatim>\<open>await\<close>. The callback closes over the \<^verbatim>\<open>queue\<close> and
  \<^verbatim>\<open>agentContext\<close> of the render that created it (\<open>cq\<close> and \<open>cac\<close>); \<^verbatim>\<open>processingRef\<close>
  is a ref and is read live. The state updaters (\<^verbatim>\<open>setMessages(prev => ...)\<close>) work on
  the current state.
\<close>

definition processQueue_start ::
  "queue_item list \<Rightarrow> agent_context \<Rightarrow> int \<Rightarrow> hook_state \<Rightarrow> hook_state" where
  "processQueue_start cq cac now s =
     (if processingRef s \<or> length cq = 0 then s
      else
        (let queuedMessages = map qmessage cq;
             agentMessages = map to_agent_message queuedMessages;
             updatedAgentContext =
               cac\<lparr> conversationHistory := conversationHistory cac @ agentMessages,
                    ac_lastProcessedAt := DateObj now,
                    processingStrategy := Accumulate \<rparr>;
             request =
               \<lparr> req_messages =
                   [(System, system_instruction),
                    (User, comprehensivePrompt (conversationHistory updatedAgentContext)
                             agentMessages)],
                 req_model = None, req_temperature = None, req_maxTokens = None \<rparr>
         in s\<lparr> processingRef := True,
               isProcessing := True,
               queue := [],
               stats := (stats s)\<lparr> pendingMessages := 0 \<rparr>,
               agentContext := updatedAgentContext,
               messages :=
                 map (\<lambda>msg. if list_ex (\<lambda>qm. msg_id qm = msg_id msg) queuedMessages
                            then msg\<lparr> processed := True \<rparr> else msg)
                     (messages s),
               issued := issued s @ [request],
               inflight := Some queuedMessages \<rparr>))"

text \<open>
  The rest of \<^verbatim>\<open>processQueue\<close>, run when the awaited call settles with \<open>outcome\<close>:
  the remainder of the \<^verbatim>\<open>try\<close> block on success, the \<^verbatim>\<open>catch\<close> block on failure, then
  \<^verbatim>\<open>finally\<close>. The second component is how the promise returned by \<^verbatim>\<open>processQueue\<close>
  settles; the \<^verbatim>\<open>catch\<close> block does not rethrow.
\<close>

definition processQueue_resume ::
  "(gen_error + llm_response) \<Rightarrow> string \<Rightarrow> int \<Rightarrow> message list \<Rightarrow> hook_state
     \<Rightarrow> hook_state \<times> promise_outcome" where
  "processQueue_resume outcome aid now queuedMessages s =
     (let try_block =
            (case outcome of
               Inl error \<Rightarrow> Inl error
             | Inr response \<Rightarrow>
                 (let assistantMessage =
                        \<lparr> msg_id = aid, content = resp_content response,
                          timestamp = DateObj now, msg_type = Assistant, processed = True \<rparr>
                  in Inr (s\<lparr> messages := messages s @ [assistantMessage],
                             stats := (stats s)
                               \<lparr> processedMessages :=
                                   processedMessages (stats s) + int (length queuedMessages),
                                 lastProcessedAt := Some (DateObj now) \<rparr> \<rparr>)));
          after_catch =
            (case try_block of
               Inl error \<Rightarrow> s\<lparr> console_errors := console_errors s @ [error] \<rparr>
             | Inr s' \<Rightarrow> s')
      in (after_catch\<lparr> processingRef := False,
                       isProcessing := False,
                       reenqueue_timers := Suc (reenqueue_timers after_catch),
                       inflight := None \<rparr>,
          Fulfilled))"

text \<open>
  The callback that \<^verbatim>\<open>finally\<close> schedules with \<^verbatim>\<open>setTimeout\<close>. \<open>gen i\<close> is the
  identifier generated for the \<open>i\<close>-th new queue item.
\<close>

definition reenqueue_check :: "(nat \<Rightarrow> string) \<Rightarrow> int \<Rightarrow> hook_state \<Rightarrow> hook_state" where
  "reenqueue_check gen now s =
     (let unprocessedMessages = filter (\<lambda>msg. msg_type msg = User \<and> \<not> processed msg) (messages s);
          s1 = s\<lparr> reenqueue_timers := reenqueue_timers s - 1 \<rparr>
      in if length unprocessedMessages > 0
         then (let newQueueItems =
                     map (\<lambda>(i, msg). \<lparr> qid = gen i, qmessage = msg, priority = 1,
                                       addedAt = DateObj now \<rparr>)
                         (enumerate 0 unprocessedMessages)
               in s1\<lparr> queue := queue s1 @ newQueueItems,
                      stats := (stats s1)
                        \<lparr> pendingMessages :=
                            pendingMessages (stats s1) + int (length unprocessedMessages) \<rparr> \<rparr>)
         else s1)"

subsection \<open>Queue edits\<close>

definition removeMessage :: "string \<Rightarrow> hook_state \<Rightarrow> hook_state" where
  "removeMessage messageId s =
     s\<lparr> messages := filter (\<lambda>msg. msg_id msg \<noteq> messageId) (messages s),
        queue := filter (\<lambda>item. msg_id (qmessage item) \<noteq> messageId) (queue s),
        stats := (stats s)\<lparr> totalMessages := max 0 (totalMessages (stats s) - 1),
                            pendingMessages := max 0 (pendingMessages (stats s) - 1) \<rparr> \<rparr>"

text \<open>\<^verbatim>\<open>Array.prototype.findIndex\<close>: the first index that satisfies the test, or \<open>-1\<close>.\<close>

fun findIndex :: "('a \<Rightarrow> bool) \<Rightarrow> 'a list \<Rightarrow> int" where
  "findIndex P [] = - 1"
| "findIndex P (x # xs) =
     (if P x then 0 else (let i = findIndex P xs in if i < 0 then - 1 else i + 1))"

text \<open>
  The destructuring swap
  \<^verbatim>\<open>[q[i], q[i - 1]] = [q[i - 1], q[i]]\<close>, done only when \<^verbatim>\<open>currentIndex > 0\<close>.
\<close>

definition swap_with_above :: "'a list \<Rightarrow> int \<Rightarrow> 'a list" where
  "swap_with_above q currentIndex =
     (if currentIndex > 0
      then (let i = nat currentIndex in (q[i := q ! (i - 1)])[i - 1 := q ! i])
      else q)"

text \<open>
  \<^verbatim>\<open>moveMessageUp\<close>. Its \<^verbatim>\<open>setQueue\<close> updater works on the current queue; its
  \<^verbatim>\<open>setMessages\<close> updater recomputes the new order from the queue \<open>cq\<close> of the
  closure.
\<close>

definition moveMessageUp :: "queue_item list \<Rightarrow> string \<Rightarrow> hook_state \<Rightarrow> hook_state" where
  "moveMessageUp cq messageId s =
     (let s1 = s\<lparr> queue :=
                   swap_with_above (queue s)
                     (findIndex (\<lambda>item. msg_id (qmessage item) = messageId) (queue s)) \<rparr>;
          prev = messages s1;
          unprocessedMessages = filter (\<lambda>msg. msg_type msg = User \<and> \<not> processed msg) prev;
          processedMessages = filter (\<lambda>msg. msg_type msg \<noteq> User \<or> processed msg) prev;
          currentIndex = findIndex (\<lambda>item. msg_id (qmessage item) = messageId) cq
      in if currentIndex > 0
         then (let newQueue = swap_with_above cq currentIndex;
                   reorderedUnprocessed =
                     List.map_filter
                       (\<lambda>queueItem. find (\<lambda>msg. msg_id msg = msg_id (qmessage queueItem))
                                         unprocessedMessages)
                       newQueue
               in s1\<lparr> messages := reorderedUnprocessed @ processedMessages \<rparr>)
         else s1)"

subsection \<open>Other callbacks\<close>

definition toggleAutoProcess :: "hook_state \<Rightarrow> hook_state" where
  "toggleAutoProcess s = s\<lparr> autoProcess := \<not> autoProcess s \<rparr>"

definition switchProvider :: "browser_env \<Rightarrow> string \<Rightarrow> hook_state \<Rightarrow> hook_state" where
  "switchProvider env providerName s =
     (case setProvider providerName (llmManager s) of
        (False, m) \<Rightarrow> s\<lparr> llmManager := m \<rparr>
      | (True, m) \<Rightarrow>
          (let s1 = s\<lparr> llmManager := m, currentProvider := providerName \<rparr>
           in case getCurrentProvider m of
                None \<Rightarrow> s1
              | Some provider \<Rightarrow>
                  s1\<lparr> llmManager :=
                        updateConfig env
                          \<lparr> new_provider = Some providerName,
                            new_model = Some (defaultModel provider),
                            new_temperature = None, new_maxTokens = None,
                            new_apiKey = None, new_url = None \<rparr> m \<rparr>))"

text \<open>
  \<^verbatim>\<open>updateApiKey\<close>. \<^verbatim>\<open>String.prototype.trim\<close> removes white space at both ends (here
  the ASCII white space). The method \<^verbatim>\<open>fetchModelsForProvider\<close> it awaits is not part of
  the manager's source; its result is the parameter \<open>fetched\<close>, \<open>None\<close> when the call
  throws.
\<close>

definition js_space :: "char \<Rightarrow> bool" where
  "js_space c = (c = CHR 0x20 \<or> c = CHR 0x09 \<or> c = CHR 0x0A \<or> c = CHR 0x0B
                 \<or> c = CHR 0x0C \<or> c = CHR 0x0D)"

definition trim :: "string \<Rightarrow> string" where
  "trim str = rev (dropWhile js_space (rev (dropWhile js_space str)))"

definition updateApiKey ::
  "browser_env \<Rightarrow> string \<Rightarrow> string list option \<Rightarrow> hook_state \<Rightarrow> hook_state" where
  "updateApiKey env key fetched s =
     (let m1 = updateConfig env
                 \<lparr> new_provider = None, new_model = None, new_temperature = None,
                   new_maxTokens = None, new_apiKey = Some key, new_url = None \<rparr>
                 (llmManager s)
      in if trim key \<noteq> []
         then (case fetched of
                 None \<Rightarrow> s\<lparr> llmManager := m1 \<rparr>
               | Some fetchedModels \<Rightarrow>
                   (case getCurrentProvider m1 of
                      None \<Rightarrow> s\<lparr> llmManager := m1 \<rparr>
                    | Some provider \<Rightarrow>
                        if length fetchedModels > 0
                        then s\<lparr> llmManager :=
                                 updateConfig env
                                   \<lparr> new_provider = None, new_model = Some (fetchedModels ! 0),
                                     new_temperature = None, new_maxTokens = None,
                                     new_apiKey = None, new_url = None \<rparr> m1 \<rparr>
                        else s\<lparr> llmManager := m1 \<rparr>))
         else s\<lparr> llmManager := m1 \<rparr>)"

text \<open>The effect that fills \<^verbatim>\<open>availableProviders\<close> after the first render.\<close>

definition checkProviders :: "(string \<Rightarrow> fetch_outcome) \<Rightarrow> hook_state \<Rightarrow> hook_state" where
  "checkProviders probe s =
     (case getAvailableProviders (llmManager s) probe of
        Inl e \<Rightarrow> s
      | Inr ps \<Rightarrow> s\<lparr> availableProviders := ps \<rparr>)"

text \<open>
  What the hook returns to its caller on a render: the observable part of the state.
\<close>

record hook_view =
  v_messages :: "message list"
  v_queue :: "queue_item list"
  v_stats :: brainstorm_stats
  v_context :: agent_context
  v_isProcessing :: bool
  v_currentProvider :: string
  v_availableProviders :: "(string \<times> bool \<times> provider_type) list"
  v_markdownSummary :: "markdown_summary option"
  v_autoProcess :: bool

definition hook_return :: "hook_state \<Rightarrow> hook_view" where
  "hook_return s =
     \<lparr> v_messages = messages s,
       v_queue = queue s,
       v_stats = stats s,
       v_context = agentContext s,
       v_isProcessing = isProcessing s,
       v_currentProvider = currentProvider s,
       v_availableProviders = availableProviders s,
       v_markdownSummary = markdownSummary s,
       v_autoProcess = autoProcess s \<rparr>"

section \<open>JSON.parse\<close>

text \<open>
  \<^verbatim>\<open>JSON.parse\<close> is the platform's parser for the JSON grammar (ECMA-404): white space
  is space, tab, line feed and carriage return; a string may not hold a raw control
  character and knows the escapes \<^verbatim>\<open>\" \\ \/ \b \f \n \r \t \uXXXX\<close>; a number has no
  leading zeros; after the value only white space may follow. \<open>None\<close> is the thrown
  \<^verbatim>\<open>SyntaxError\<close>. The recursion of the grammar is bounded by a counter that starts
  above the length of the text.
\<close>

definition is_ws :: "char \<Rightarrow> bool" where
  "is_ws c = (c = CHR 0x20 \<or> c = CHR 0x09 \<or> c = CHR 0x0A \<or> c = CHR 0x0D)"

definition skip_ws :: "string \<Rightarrow> string" where
  "skip_ws cs = dropWhile is_ws cs"

definition is_digit :: "char \<Rightarrow> bool" where
  "is_digit c = (48 \<le> (of_char c :: nat) \<and> (of_char c :: nat) \<le> 57)"

definition digits_val :: "string \<Rightarrow> nat" where
  "digits_val ds = foldl (\<lambda>n c. 10 * n + ((of_char c :: nat) - 48)) 0 ds"

definition hex_val :: "char \<Rightarrow> nat option" where
  "hex_val c =
     (let n = (of_char c :: nat)
      in if 48 \<le> n \<and> n \<le> 57 then Some (n - 48)
         else if 65 \<le> n \<and> n \<le> 70 then Some (n - 55)
         else if 97 \<le> n \<and> n \<le> 102 then Some (n - 87)
         else None)"

text \<open>The UTF-8 bytes of a UTF-16 code unit.\<close>

definition utf8 :: "nat \<Rightarrow> string" where
  "utf8 n =
     (if n < 128 then [char_of n]
      else if n < 2048 then [char_of (192 + n div 64), char_of (128 + n mod 64)]
      else [char_of (224 + n div 4096), char_of (128 + (n div 64) mod 64),
            char_of (128 + n mod 64)])"

definition unescape :: "char \<Rightarrow> char option" where
  "unescape e =
     (if e = CHR 0x22 then Some (CHR 0x22)
      else if e = CHR 0x5C then Some (CHR 0x5C)
      else if e = CHR ''/'' then Some (CHR ''/'')
      else if e = CHR ''b'' then Some (CHR 0x08)
      else if e = CHR ''f'' then Some (CHR 0x0C)
      else if e = CHR ''n'' then Some (CHR 0x0A)
      else if e = CHR ''r'' then Some (CHR 0x0D)
      else if e = CHR ''t'' then Some (CHR 0x09)
      else None)"

text \<open>The characters of a string after its opening quote, up to the closing one.\<close>

fun parse_chars :: "string \<Rightarrow> string \<Rightarrow> (string \<times> string) option" where
  "parse_chars acc [] = None"
| "parse_chars acc (c # cs) =
     (if c = CHR 0x22 then Some (rev acc, cs)
      else if c = CHR 0x5C then
        (case cs of
           [] \<Rightarrow> None
         | e # cs' \<Rightarrow>
             (if e = CHR ''u'' then
                (case cs' of
                   h1 # h2 # h3 # h4 # cs'' \<Rightarrow>
                     (case (hex_val h1, hex_val h2, hex_val h3, hex_val h4) of
                        (Some a, Some b, Some c', Some d) \<Rightarrow>
                          parse_chars (rev (utf8 (4096 * a + 256 * b + 16 * c' + d)) @ acc) cs''
                      | _ \<Rightarrow> None)
                 | _ \<Rightarrow> None)
              else (case unescape e of
                      None \<Rightarrow> None
                    | Some ch \<Rightarrow> parse_chars (ch # acc) cs')))
      else if (of_char c :: nat) < 32 then None
      else parse_chars (c # acc) cs)"

definition parse_exponent :: "string \<Rightarrow> (int \<times> string) option" where
  "parse_exponent cs =
     (case cs of
        [] \<Rightarrow> Some (0, cs)
      | c # r \<Rightarrow>
          (if c = CHR ''e'' \<or> c = CHR ''E'' then
             (let (neg, r1) =
                    (case r of
                       [] \<Rightarrow> (False, r)
                     | s # r' \<Rightarrow> if s = CHR ''-'' then (True, r')
                                else if s = CHR ''+'' then (False, r') else (False, r));
                  ds = takeWhile is_digit r1
              in if ds = [] then None
                 else Some ((if neg then - int (digits_val ds) else int (digits_val ds)),
                            dropWhile is_digit r1))
           else Some (0, cs)))"

definition parse_number :: "string \<Rightarrow> (json \<times> string) option" where
  "parse_number cs =
     (let (neg, cs1) =
            (case cs of
               [] \<Rightarrow> (False, cs)
             | c # r \<Rightarrow> if c = CHR ''-'' then (True, r) else (False, cs));
          ip = takeWhile is_digit cs1;
          cs2 = dropWhile is_digit cs1
      in if ip = [] \<or> (1 < length ip \<and> hd ip = CHR ''0'') then None
         else
           (let (fp, cs3) =
                  (case cs2 of
                     [] \<Rightarrow> (Some [], cs2)
                   | c # r \<Rightarrow>
                       if c = CHR ''.''
                       then (if takeWhile is_digit r = [] then None
                             else Some (takeWhile is_digit r), dropWhile is_digit r)
                       else (Some [], cs2))
            in case fp of
                 None \<Rightarrow> None
               | Some fd \<Rightarrow>
                   (case parse_exponent cs3 of
                      None \<Rightarrow> None
                    | Some (ex, rest) \<Rightarrow>
                        Some (JNum ((if neg then - 1 else 1) * int (digits_val (ip @ fd)))
                                   (ex - int (length fd)),
                              rest))))"

definition parse_literal :: "string \<Rightarrow> (json \<times> string) option" where
  "parse_literal cs =
     (if take 4 cs = ''true'' then Some (JBool True, drop 4 cs)
      else if take 5 cs = ''false'' then Some (JBool False, drop 5 cs)
      else if take 4 cs = ''null'' then Some (JNull, drop 4 cs)
      else parse_number cs)"

fun parse_value :: "nat \<Rightarrow> string \<Rightarrow> (json \<times> string) option"
  and parse_elements :: "nat \<Rightarrow> json list \<Rightarrow> string \<Rightarrow> (json \<times> string) option"
  and parse_members :: "nat \<Rightarrow> (string \<times> json) list \<Rightarrow> string \<Rightarrow> (json \<times> string) option"
where
  "parse_value 0 cs = None"
| "parse_value (Suc n) cs =
     (case skip_ws cs of
        [] \<Rightarrow> None
      | c # rest \<Rightarrow>
          (if c = CHR ''{'' then
             (case skip_ws rest of
                [] \<Rightarrow> None
              | d # rest' \<Rightarrow>
                  if d = CHR ''}'' then Some (JObj [], rest')
                  else parse_members n [] (d # rest'))
           else if c = CHR ''['' then
             (case skip_ws rest of
                [] \<Rightarrow> None
              | d # rest' \<Rightarrow>
                  if d = CHR '']'' then Some (JArr [], rest')
                  else parse_elements n [] (d # rest'))
           else if c = CHR 0x22 then
             (case parse_chars [] rest of
                None \<Rightarrow> None
              | Some (str, rest') \<Rightarrow> Some (JStr str, rest'))
           else parse_literal (c # rest)))"
| "parse_elements 0 acc cs = None"
| "parse_elements (Suc n) acc cs =
     (case parse_value n cs of
        None \<Rightarrow> None
      | Some (v, rest) \<Rightarrow>
          (case skip_ws rest of
             [] \<Rightarrow> None
           | d # rest' \<Rightarrow>
               if d = CHR '','' then parse_elements n (v # acc) rest'
               else if d = CHR '']'' then Some (JArr (rev (v # acc)), rest')
               else None))"
| "parse_members 0 acc cs = None"
| "parse_members (Suc n) acc cs =
     (case skip_ws cs of
        [] \<Rightarrow> None
      | q # rest \<Rightarrow>
          if q \<noteq> CHR 0x22 then None
          else
            (case parse_chars [] rest of
               None \<Rightarrow> None
             | Some (key, rest1) \<Rightarrow>
                 (case skip_ws rest1 of
                    [] \<Rightarrow> None
                  | colon # rest2 \<Rightarrow>
                      if colon \<noteq> CHR '':'' then None
                      else
                        (case parse_value n rest2 of
                           None \<Rightarrow> None
                         | Some (v, rest3) \<Rightarrow>
                             (case skip_ws rest3 of
                                [] \<Rightarrow> None
                              | d # rest4 \<Rightarrow>
                                  if d = CHR '','' then parse_members n ((key, v) # acc) rest4
                                  else if d = CHR ''}''
                                  then Some (JObj (rev ((key, v) # acc)), rest4)
                                  else None)))))"

definition JSON_parse :: "string \<Rightarrow> json option" where
  "JSON_parse text =
     (case parse_value (Suc (length text)) text of
        None \<Rightarrow> None
      | Some (v, rest) \<Rightarrow> if skip_ws rest = [] then Some v else None)"

section \<open>The summary synthesizer (AgentProcessor)\<close>

datatype js_error = GenerationFailed gen_error | TypeError string

text \<open>
  Reading a property of a value of type \<^verbatim>\<open>any\<close>: on \<^verbatim>\<open>null\<close> it throws a
  \<^verbatim>\<open>TypeError\<close>; on an object it gives the member (the last one, when \<^verbatim>\<open>JSON.parse\<close>
  met the key twice) or \<^verbatim>\<open>undefined\<close>; on any other value it gives \<^verbatim>\<open>undefined\<close> for
  the names used here. \<open>None\<close> is \<^verbatim>\<open>undefined\<close>.
\<close>

definition property :: "json \<Rightarrow> string \<Rightarrow> js_error + json option" where
  "property v k =
     (case v of
        JNull \<Rightarrow> Inl (TypeError (''Cannot read properties of null (reading '' @ k @ '')''))
      | JObj members \<Rightarrow> Inr (map_of (rev members) k)
      | _ \<Rightarrow> Inr None)"

text \<open>The operator \<^verbatim>\<open>||\<close>: the left value unless it is false in a condition.\<close>

definition or_else :: "json option \<Rightarrow> json \<Rightarrow> json" where
  "or_else v d =
     (case v of
        None \<Rightarrow> d
      | Some JNull \<Rightarrow> d
      | Some (JBool b) \<Rightarrow> (if b then JBool b else d)
      | Some (JNum m e) \<Rightarrow> (if m = 0 then d else JNum m e)
      | Some (JStr str) \<Rightarrow> (if str = [] then d else JStr str)
      | Some (JArr xs) \<Rightarrow> JArr xs
      | Some (JObj ms) \<Rightarrow> JObj ms)"

definition parseMarkdownSummary :: "string \<Rightarrow> json" where
  "parseMarkdownSummary text =
     (case JSON_parse text of
        Some v \<Rightarrow> v
      | None \<Rightarrow>
          JObj [(''title'', JStr ''Brainstorm Session''),
                (''overview'', JStr text),
                (''keyInsights'', JArr []),
                (''generatedIdeas'', JArr []),
                (''actionItems'', JArr []),
                (''questions'', JArr []),
                (''nextSteps'', JArr [])])"

text \<open>
  \<^verbatim>\<open>AgentProcessor.generateMarkdownSummary\<close>, from the point where the awaited
  \<^verbatim>\<open>llmManager.generate\<close> settles with \<open>outcome\<close>; a failed call propagates. \<open>today\<close>
  is \<^verbatim>\<open>new Date().toLocaleDateString()\<close> and \<open>now\<close> the time of \<^verbatim>\<open>new Date()\<close>.
\<close>

definition generateMarkdownSummary ::
  "(gen_error + llm_response) \<Rightarrow> string \<Rightarrow> int \<Rightarrow> js_error + markdown_summary" where
  "generateMarkdownSummary outcome today now =
     (case outcome of
        Inl e \<Rightarrow> Inl (GenerationFailed e)
      | Inr response \<Rightarrow>
          (let parsed = parseMarkdownSummary (resp_content response)
           in case property parsed ''title'' of Inl e \<Rightarrow> Inl e | Inr t \<Rightarrow>
              case property parsed ''overview'' of Inl e \<Rightarrow> Inl e | Inr ov \<Rightarrow>
              case property parsed ''keyInsights'' of Inl e \<Rightarrow> Inl e | Inr ki \<Rightarrow>
              case property parsed ''generatedIdeas'' of Inl e \<Rightarrow> Inl e | Inr gi \<Rightarrow>
              case property parsed ''actionItems'' of Inl e \<Rightarrow> Inl e | Inr ai \<Rightarrow>
              case property parsed ''questions'' of Inl e \<Rightarrow> Inl e | Inr qs \<Rightarrow>
              case property parsed ''nextSteps'' of Inl e \<Rightarrow> Inl e | Inr ns \<Rightarrow>
                Inr \<lparr> ms_title = or_else t (JStr (''Brainstorm Session - '' @ today)),
                      ms_overview = or_else ov (JStr ''No overview available''),
                      keyInsights = or_else ki (JArr []),
                      ms_generatedIdeas = or_else gi (JArr []),
                      actionItems = or_else ai (JArr []),
                      questions = or_else qs (JArr []),
                      nextSteps = or_else ns (JArr []),
                      createdAt = DateObj now \<rparr>))"

text \<open>
  The callback \<^verbatim>\<open>generateBrainstorm\<close> of the hook, as far as the state goes (the
  markdown text it returns and its console output are not modelled): nothing without
  conversation turns, the new summary document on success, no change on failure.
\<close>

definition generateBrainstorm ::
  "(gen_error + llm_response) \<Rightarrow> string \<Rightarrow> int \<Rightarrow> hook_state \<Rightarrow> hook_state" where
  "generateBrainstorm outcome today now s =
     (if length (conversationHistory (agentContext s)) = 0 then s
      else case generateMarkdownSummary outcome today now of
             Inl e \<Rightarrow> s
           | Inr summary \<Rightarrow> s\<lparr> markdownSummary := Some summary \<rparr>)"

section \<open>Persistence (saveToStorage, loadFromStorage)\<close>

text \<open>
  \<^verbatim>\<open>JSON.stringify\<close> followed by \<^verbatim>\<open>JSON.parse\<close> keeps strings, numbers, booleans, arrays
  and objects as they are, turns every \<^verbatim>\<open>Date\<close> into its ISO text and drops a field
  that is \<^verbatim>\<open>undefined\<close>. The functions below are that conversion on each type of the
  saved record.
\<close>

definition json_message :: "message \<Rightarrow> message" where
  "json_message msg = msg\<lparr> timestamp := toJSON (timestamp msg) \<rparr>"

definition json_queue_item :: "queue_item \<Rightarrow> queue_item" where
  "json_queue_item item =
     item\<lparr> qmessage := json_message (qmessage item), addedAt := toJSON (addedAt item) \<rparr>"

definition json_stats :: "brainstorm_stats \<Rightarrow> brainstorm_stats" where
  "json_stats st = st\<lparr> lastProcessedAt := map_option toJSON (lastProcessedAt st) \<rparr>"

definition json_context :: "brainstorm_context \<Rightarrow> brainstorm_context" where
  "json_context c =
     c\<lparr> bc_conversationHistory := map json_message (bc_conversationHistory c),
        lastContextUpdate := toJSON (lastContextUpdate c) \<rparr>"

definition json_agent_message :: "agent_message \<Rightarrow> agent_message" where
  "json_agent_message m = m\<lparr> am_timestamp := toJSON (am_timestamp m) \<rparr>"

definition json_insight :: "insight \<Rightarrow> insight" where
  "json_insight i = i\<lparr> extractedAt := toJSON (extractedAt i) \<rparr>"

definition json_idea :: "idea \<Rightarrow> idea" where
  "json_idea i = i\<lparr> generatedAt := toJSON (generatedAt i) \<rparr>"

definition json_agent_context :: "agent_context \<Rightarrow> agent_context" where
  "json_agent_context c =
     c\<lparr> conversationHistory := map json_agent_message (conversationHistory c),
        extractedInsights := map json_insight (extractedInsights c),
        generatedIdeas := map json_idea (generatedIdeas c),
        ac_lastProcessedAt := toJSON (ac_lastProcessedAt c) \<rparr>"

definition json_summary :: "markdown_summary \<Rightarrow> markdown_summary" where
  "json_summary d = d\<lparr> createdAt := toJSON (createdAt d) \<rparr>"

text \<open>The record \<^verbatim>\<open>dataToSave\<close> as \<^verbatim>\<open>JSON.parse\<close> gives it back.\<close>

record stored_data =
  sd_messages :: "message list"
  sd_queue :: "queue_item list"
  sd_stats :: brainstorm_stats
  sd_context :: brainstorm_context
  sd_agentContext :: agent_context
  sd_markdownSummary :: "markdown_summary option"
  sd_currentProvider :: string
  sd_autoProcess :: bool
  sd_timestamp :: int

text \<open>What \<^verbatim>\<open>localStorage.getItem\<close> finds under the storage key: nothing, a text
  that \<^verbatim>\<open>JSON.parse\<close> rejects, or a saved record.\<close>

datatype storage_item = NoItem | Unparsable | Item stored_data

definition saveToStorage :: "hook_state \<Rightarrow> int \<Rightarrow> storage_item" where
  "saveToStorage s now =
     Item \<lparr> sd_messages = map json_message (messages s),
            sd_queue = map json_queue_item (queue s),
            sd_stats = json_stats (stats s),
            sd_context = json_context (context_st s),
            sd_agentContext = json_agent_context (agentContext s),
            sd_markdownSummary = map_option json_summary (markdownSummary s),
            sd_currentProvider = currentProvider s,
            sd_autoProcess = autoProcess s,
            sd_timestamp = now \<rparr>"

text \<open>
  \<^verbatim>\<open>loadFromStorage\<close>. An array or an object is true in a condition, \<^verbatim>\<open>null\<close> and
  the empty string are not. The \<^verbatim>\<open>Date\<close> fields it rebuilds are exactly the ones named
  in its body.
\<close>

definition loadFromStorage :: "storage_item \<Rightarrow> hook_state \<Rightarrow> hook_state" where
  "loadFromStorage savedData s =
     (case savedData of
        NoItem \<Rightarrow> s
      | Unparsable \<Rightarrow> s
      | Item parsed \<Rightarrow>
          (let s1 = s\<lparr> messages :=
                        map (\<lambda>msg. msg\<lparr> timestamp := new_Date (timestamp msg) \<rparr>)
                            (sd_messages parsed) \<rparr>;
               s2 = s1\<lparr> queue :=
                         map (\<lambda>item. item\<lparr> addedAt := new_Date (addedAt item),
                                           qmessage := (qmessage item)
                                             \<lparr> timestamp := new_Date (timestamp (qmessage item)) \<rparr> \<rparr>)
                             (sd_queue parsed) \<rparr>;
               s3 = s2\<lparr> stats :=
                         (sd_stats parsed)
                           \<lparr> lastProcessedAt :=
                               (case lastProcessedAt (sd_stats parsed) of
                                  None \<Rightarrow> None
                                | Some v \<Rightarrow> Some (new_Date v)) \<rparr> \<rparr>;
               s4 = s3\<lparr> context_st :=
                         (sd_context parsed)
                           \<lparr> lastContextUpdate := new_Date (lastContextUpdate (sd_context parsed)) \<rparr> \<rparr>;
               s5 = s4\<lparr> agentContext :=
                         (sd_agentContext parsed)
                           \<lparr> ac_lastProcessedAt :=
                               new_Date (ac_lastProcessedAt (sd_agentContext parsed)) \<rparr> \<rparr>;
               s6 = (case sd_markdownSummary parsed of
                       None \<Rightarrow> s5
                     | Some d \<Rightarrow> s5\<lparr> markdownSummary := Some d \<rparr>);
               s7 = (if sd_currentProvider parsed \<noteq> []
                     then s6\<lparr> currentProvider := sd_currentProvider parsed \<rparr> else s6)
           in s7\<lparr> autoProcess := sd_autoProcess parsed \<rparr>))"

section \<open>Reachable states\<close>

text \<open>
  The states the hook can reach: it starts from its initial state or from what an
  earlier session saved, and then runs its callbacks, effects and timers. Callbacks are
  invoked from the latest render, so the queue and context of their closure are those
  of the state.
\<close>

inductive reachable :: "browser_env \<Rightarrow> hook_state \<Rightarrow> bool" for env :: browser_env where
  r_init: "reachable env (initial_state env sid t0)"
| r_addMessage: "reachable env s \<Longrightarrow> reachable env (addMessage mid qi now text s)"
| r_processQueue:
    "reachable env s \<Longrightarrow> reachable env (processQueue_start (queue s) (agentContext s) now s)"
| r_resume:
    "reachable env s \<Longrightarrow> inflight s = Some queuedMessages \<Longrightarrow>
     reachable env (fst (processQueue_resume outcome aid now queuedMessages s))"
| r_reenqueue:
    "reachable env s \<Longrightarrow> 0 < reenqueue_timers s \<Longrightarrow> reachable env (reenqueue_check gen now s)"
| r_removeMessage: "reachable env s \<Longrightarrow> reachable env (removeMessage messageId s)"
| r_moveMessageUp: "reachable env s \<Longrightarrow> reachable env (moveMessageUp (queue s) messageId s)"
| r_toggleAutoProcess: "reachable env s \<Longrightarrow> reachable env (toggleAutoProcess s)"
| r_switchProvider: "reachable env s \<Longrightarrow> reachable env (switchProvider env providerName s)"
| r_updateApiKey: "reachable env s \<Longrightarrow> reachable env (updateApiKey env key fetched s)"
| r_checkProviders: "reachable env s \<Longrightarrow> reachable env (checkProviders probe s)"
| r_generateBrainstorm:
    "reachable env s \<Longrightarrow> reachable env (generateBrainstorm outcome today now s)"
| r_loadFromStorage:
    "reachable env s \<Longrightarrow>
     reachable env (loadFromStorage (saveToStorage s now) (initial_state env sid t0))"

text \<open>
  Every queue entry stands for a message of the history that is a user message and
  not yet processed.
\<close>

definition queue_in_history :: "hook_state \<Rightarrow> bool" where
  "queue_in_history s =
     (\<forall>item \<in> set (queue s). \<exists>msg \<in> set (messages s).
         msg_id msg = msg_id (qmessage item) \<and> msg_type msg = User \<and> \<not> processed msg)"

section \<open>Concrete inputs\<close>

text \<open>A concrete environment, configuration and configuration update, used to
  evaluate the definitions.\<close>

definition env0 :: browser_env where
  "env0 = \<lparr>window_defined = True, vite_ollama_url = None, hostname = ''localhost''\<rparr>"

definition cfg0 :: llm_config where
  "cfg0 = \<lparr>cfg_provider = ''llama'', cfg_model = ''llama3.1'', cfg_temperature = 0.7,
           cfg_maxTokens = 2000, cfg_apiKey = None, cfg_url = None\<rparr>"

definition url_config :: partial_config where
  "url_config = \<lparr>new_provider = None, new_model = None, new_temperature = None,
                  new_maxTokens = None, new_apiKey = None, new_url = Some ''http://gpu-box:11434''\<rparr>"

definition st0 :: hook_state where
  "st0 = initial_state env0 ''session_0'' 0"

definition st1 :: hook_state where
  "st1 = addMessage ''msg_1'' ''queue_1'' 1000 ''idea 1'' st0"

definition sq2 :: hook_state where
  "sq2 = addMessage ''msg_2'' ''queue_2'' 1500 ''idea 2'' st1"

definition st2 :: hook_state where
  "st2 = processQueue_start (queue st1) (agentContext st1) 2000 st1"

definition st3 :: hook_state where
  "st3 = addMessage ''msg_2'' ''queue_2'' 3000 ''idea 2'' st2"

definition reply0 :: llm_response where
  "reply0 = \<lparr> resp_content = ''Tell me more.'', resp_model = Some ''llama3.1'',
               resp_finishReason = Some ''stop'' \<rparr>"

definition st4 :: hook_state where
  "st4 = fst (processQueue_resume (Inr reply0) ''msg_3'' 4000 (map qmessage (queue st1)) st3)"

definition st5 :: hook_state where
  "st5 = reenqueue_check (\<lambda>i. ''queue_3'') 4100 st4"

definition message1 :: message where
  "message1 = \<lparr> msg_id = ''msg_1'', content = ''idea 1'', timestamp = DateObj 1000,
                 msg_type = User, processed = False \<rparr>"

definition message2 :: message where
  "message2 = \<lparr> msg_id = ''msg_2'', content = ''idea 2'', timestamp = DateObj 3000,
                 msg_type = User, processed = False \<rparr>"

definition payload0 :: string where
  \<open>payload0 = ''{"title":"Session","overview":"Two ideas","keyInsights":[{"id":"insight_1","title":"A","content":"B","type":"insight","priority":1,"relatedMessages":[]}],"generatedIdeas":[],"actionItems":[],"questions":[],"nextSteps":["Step 1"]}''\<close>

definition response0 :: string where
  "response0 = ''Here is the summary you asked for:\<newline>```json\<newline>'' @ payload0
               @ ''\<newline>```\<newline>Let me know if you need anything else.''"

definition summary0 :: markdown_summary where
  "summary0 = \<lparr> ms_title = JStr ''Brainstorm Session'',
                 ms_overview = JStr response0,
                 keyInsights = JArr [],
                 ms_generatedIdeas = JArr [],
                 actionItems = JArr [],
                 questions = JArr [],
                 nextSteps = JArr [],
                 createdAt = DateObj 6000 \<rparr>"

definition st6 :: hook_state where
  "st6 = generateBrainstorm
           (Inr \<lparr>resp_content = response0, resp_model = Some ''llama3.1'',
                 resp_finishReason = Some ''stop''\<rparr>) ''11/2/2026'' 6000 st2"

definition st7 :: hook_state where
  "st7 = loadFromStorage (saveToStorage st6 7000) (initial_state env0 ''session_1'' 8000)"

section \<open>Properties of the adapters and the registry\<close>

lemma try_catch_false: "\<exists>b. try_catch body (\<lambda>error. Inr False) = Inr (b::bool)"
  by (cases body) (auto simp: try_catch_def)

lemma isAvailable_returns: "\<exists>b. isAvailable p fo = Inr b"
  unfolding isAvailable_def LlamaProvider_isAvailable_def OpenAIProvider_isAvailable_def
    GeminiProvider_isAvailable_def AnthropicProvider_isAvailable_def
  by (cases "adapter p") (auto simp: try_catch_false)

lemma isAvailable_failure: "probe_fails p fo \<Longrightarrow> isAvailable p fo = Inr False"
  unfolding isAvailable_def LlamaProvider_isAvailable_def OpenAIProvider_isAvailable_def
    GeminiProvider_isAvailable_def AnthropicProvider_isAvailable_def probe_fails_def
  by (cases "adapter p"; cases fo) (auto simp: try_catch_def await_fetch_def)

lemma promise_all_returns:
  "\<forall>p \<in> set ps. \<exists>v. p = Inr v \<Longrightarrow> \<exists>vs. promise_all ps = Inr vs"
  by (induction ps) auto

lemma getAvailableProviders_returns: "\<exists>ps. getAvailableProviders m probe = Inr ps"
proof -
  have "\<exists>v. (case isAvailable provider (probe nm) of
                Inl e \<Rightarrow> Inl e
              | Inr available \<Rightarrow> Inr (nm, available, ptype provider)) = Inr v"
    for nm provider
    using isAvailable_returns [of provider "probe nm"] by auto
  then show ?thesis
    unfolding getAvailableProviders_def by (intro promise_all_returns) auto
qed

text \<open>
  Claim C8. For every adapter and every outcome of the underlying request, the
  availability probe returns a boolean and never throws, and every failure mode
  (missing credential, network error, non-success HTTP response) gives \<open>False\<close>.
\<close>

theorem C8_isAvailable_never_throws:
  "(\<exists>b. isAvailable p fo = Inr b) \<and> (probe_fails p fo \<longrightarrow> isAvailable p fo = Inr False)"
  using isAvailable_returns isAvailable_failure by blast

theorem C8_isAvailable_witness:
  "probe_fails (OpenAIProvider None) (HttpResponse 200)
   \<and> isAvailable (OpenAIProvider None) (HttpResponse 200) = Inr False
   \<and> probe_fails (LlamaProvider \<lparr>window_defined = True, vite_ollama_url = None,
                      hostname = ''localhost''\<rparr> None) (HttpResponse 503)
   \<and> isAvailable (LlamaProvider \<lparr>window_defined = True, vite_ollama_url = None,
                      hostname = ''localhost''\<rparr> None) (HttpResponse 503) = Inr False
   \<and> probe_fails (GeminiProvider (Some ''k'')) (NetworkError ''Failed to fetch'')
   \<and> isAvailable (GeminiProvider (Some ''k'')) (NetworkError ''Failed to fetch'') = Inr False"
proof -
  let ?env = "\<lparr>window_defined = True, vite_ollama_url = None, hostname = ''localhost''\<rparr>"
  have a: "probe_fails (OpenAIProvider None) (HttpResponse 200)"
    by (simp add: probe_fails_def OpenAIProvider_def truthy_def)
  have b: "probe_fails (LlamaProvider ?env None) (HttpResponse 503)"
    by (simp add: probe_fails_def response_ok_def)
  have c: "probe_fails (GeminiProvider (Some ''k'')) (NetworkError ''Failed to fetch'')"
    by (simp add: probe_fails_def)
  from a b c
    C8_isAvailable_never_throws [of "OpenAIProvider None" "HttpResponse 200"]
    C8_isAvailable_never_throws [of "LlamaProvider ?env None" "HttpResponse 503"]
    C8_isAvailable_never_throws [of "GeminiProvider (Some ''k'')" "NetworkError ''Failed to fetch''"]
  show ?thesis by blast
qed

lemma keys_update_has: "has ps k \<Longrightarrow> map fst (AList.update k v ps) = map fst ps"
  by (simp add: has_def update_keys)

lemma has_update: "has (AList.update k v ps) k' = (k' = k \<or> has ps k')"
  by (auto simp: has_def update_keys)

lemma keys_initializeProviders:
  "has (providers (initializeProviders env m)) ''llama''"
  by (simp add: initializeProviders_def Let_def has_update)

lemma keys_updateConfig:
  "map fst (providers (updateConfig env newConfig m)) = map fst (providers m)"
  by (simp add: updateConfig_def Let_def keys_update_has has_def)

lemma current_updateConfig:
  "m_currentProvider (updateConfig env newConfig m) = m_currentProvider m"
  by (simp add: updateConfig_def Let_def)

lemma has_updateConfig: "has (providers (updateConfig env newConfig m)) k = has (providers m) k"
  by (simp add: has_def keys_updateConfig)

lemma current_registered: "reachable_mgr env m \<Longrightarrow> has (providers m) (m_currentProvider m)"
proof (induction rule: reachable_mgr.induct)
  case (rm_new cfg)
  then show ?case
    by (simp add: new_LLMProviderManager_def initializeProviders_def Let_def has_def)
next
  case (rm_setProvider m providerName)
  then show ?case by (simp add: setProvider_def)
next
  case (rm_updateConfig m newConfig)
  then show ?case by (simp add: has_updateConfig current_updateConfig)
qed

lemma has_map_of: "has ps k \<Longrightarrow> \<exists>p. map_of ps k = Some p"
  by (metis has_def map_of_eq_None_iff not_Some_eq set_map)

lemma generate_found:
  "getCurrentProvider m = Some p \<Longrightarrow> generate m request backend \<noteq> Inl (ProviderNotFound n)"
  by (simp add: generate_def Let_def split: sum.splits)

lemma llama_updateConfig:
  "map_of (providers m) ''llama'' = Some (LlamaProvider env None) \<Longrightarrow>
   map_of (providers (updateConfig env newConfig m)) ''llama'' = Some (LlamaProvider env None)"
  by (simp add: updateConfig_def Let_def update_conv')

lemma llama_replaced:
  "truthy (new_url newConfig) \<Longrightarrow> has (providers m) ''llama'' \<Longrightarrow>
   map_of (providers (updateConfig env newConfig m)) ''llama'' = Some (LlamaProvider env None)"
  by (simp add: updateConfig_def Let_def update_conv' has_update)

lemma llama_default: "reachable_mgr env m \<Longrightarrow>
   map_of (providers m) ''llama'' = Some (LlamaProvider env None)"
proof (induction rule: reachable_mgr.induct)
  case (rm_new cfg)
  then show ?case
    by (simp add: new_LLMProviderManager_def initializeProviders_def Let_def update_conv')
next
  case (rm_setProvider m providerName)
  then show ?case by (simp add: setProvider_def)
next
  case (rm_updateConfig m newConfig)
  then show ?case by (simp add: llama_updateConfig)
qed

text \<open>
  Claim C9. In every reachable state of the manager the current provider id names a
  registered adapter: the constructor registers the initial id \<open>''llama''\<close>,
  \<^verbatim>\<open>setProvider\<close> on an unknown id returns false and changes nothing, hence
  \<^verbatim>\<open>getCurrentProvider\<close> never returns null and \<^verbatim>\<open>generate\<close> never takes its
  "Provider not found" branch.
\<close>

theorem C9_current_provider_registered:
  assumes "reachable_mgr env m"
  shows "m_currentProvider (new_LLMProviderManager env cfg) = ''llama''
         \<and> has (providers (new_LLMProviderManager env cfg)) ''llama''
         \<and> (\<not> has (providers m) providerName \<longrightarrow> setProvider providerName m = (False, m))
         \<and> has (providers m) (m_currentProvider m)
         \<and> getCurrentProvider m \<noteq> None
         \<and> generate m request backend \<noteq> Inl (ProviderNotFound n)"
proof -
  have c: "has (providers m) (m_currentProvider m)"
    using assms by (rule current_registered)
  then obtain p where p: "getCurrentProvider m = Some p"
    unfolding getCurrentProvider_def using has_map_of by blast
  have i: "m_currentProvider (new_LLMProviderManager env cfg) = ''llama''"
    by (simp add: new_LLMProviderManager_def initializeProviders_def Let_def)
  have r: "has (providers (new_LLMProviderManager env cfg)) ''llama''"
    by (simp add: new_LLMProviderManager_def keys_initializeProviders)
  show ?thesis
    using c p i r generate_found [OF p] by (simp add: setProvider_def)
qed

theorem C9_witness:
  "reachable_mgr env0 (snd (setProvider ''mistral'' (new_LLMProviderManager env0 cfg0)))
   \<and> \<not> has (providers (snd (setProvider ''mistral'' (new_LLMProviderManager env0 cfg0)))) ''mistral''
   \<and> m_currentProvider (snd (setProvider ''mistral'' (new_LLMProviderManager env0 cfg0))) = ''llama''
   \<and> getCurrentProvider (snd (setProvider ''mistral'' (new_LLMProviderManager env0 cfg0))) \<noteq> None"
proof -
  let ?m = "snd (setProvider ''mistral'' (new_LLMProviderManager env0 cfg0))"
  have r: "reachable_mgr env0 ?m"
    by (rule rm_setProvider, rule rm_new)
  have e: "?m = new_LLMProviderManager env0 cfg0"
    by (simp add: setProvider_def new_LLMProviderManager_def initializeProviders_def has_def)
  have h: "\<not> has (providers ?m) ''mistral''"
    unfolding e by (simp add: new_LLMProviderManager_def initializeProviders_def has_def)
  have k: "m_currentProvider ?m = ''llama''"
    unfolding e by (simp add: new_LLMProviderManager_def initializeProviders_def)
  from C9_current_provider_registered [OF r, of cfg0 "''mistral''"] r h k
  show ?thesis by simp
qed

text \<open>
  Claim C10. \<^verbatim>\<open>updateConfig\<close> never changes the registered identifiers nor the current
  provider id; given a url it replaces the Llama adapter by an instance constructed
  without that url, so in every reachable state the Llama adapter's \<open>baseUrl\<close>, and
  with it the address of its requests, is the constructor's default, whatever url was
  configured.
\<close>

theorem C10_updateConfig_url_ignored:
  "map fst (providers (updateConfig env newConfig m)) = map fst (providers m)
   \<and> m_currentProvider (updateConfig env newConfig m) = m_currentProvider m
   \<and> (truthy (new_url newConfig) \<and> has (providers m) ''llama'' \<longrightarrow>
        map_of (providers (updateConfig env newConfig m)) ''llama'' = Some (LlamaProvider env None))
   \<and> (reachable_mgr env m \<longrightarrow>
        (\<exists>p. map_of (providers (updateConfig env newConfig m)) ''llama'' = Some p
             \<and> baseUrl p = baseUrl (LlamaProvider env None)
             \<and> LlamaProvider_generate_url p = baseUrl (LlamaProvider env None) @ ''/api/generate''))"
  using keys_updateConfig [of env newConfig m] current_updateConfig [of env newConfig m]
    llama_replaced [of newConfig m env] llama_default [of env m]
    llama_updateConfig [of m env newConfig]
  by (simp add: LlamaProvider_generate_url_def)

theorem C10_witness:
  "reachable_mgr env0 (new_LLMProviderManager env0 cfg0)
   \<and> truthy (new_url url_config)
   \<and> has (providers (new_LLMProviderManager env0 cfg0)) ''llama''
   \<and> map (\<lambda>(k, p). (k, baseUrl p))
          (providers (updateConfig env0 url_config (new_LLMProviderManager env0 cfg0)))
       = [(''llama'', ''http://localhost:11434''),
          (''gemini'', ''https://generativelanguage.googleapis.com/v1beta''),
          (''openai'', ''https://api.openai.com/v1'')]
   \<and> map_of (providers (updateConfig env0 url_config (new_LLMProviderManager env0 cfg0))) ''llama''
       = Some (LlamaProvider env0 None)
   \<and> m_currentProvider (updateConfig env0 url_config (new_LLMProviderManager env0 cfg0)) = ''llama''"
proof -
  let ?m = "new_LLMProviderManager env0 cfg0"
  have r: "reachable_mgr env0 ?m" by (rule rm_new)
  have t: "truthy (new_url url_config)" by (simp add: url_config_def truthy_def)
  have h: "has (providers ?m) ''llama''"
    by (simp add: new_LLMProviderManager_def initializeProviders_def has_def)
  have b: "map (\<lambda>(k, p). (k, baseUrl p)) (providers (updateConfig env0 url_config ?m))
       = [(''llama'', ''http://localhost:11434''),
          (''gemini'', ''https://generativelanguage.googleapis.com/v1beta''),
          (''openai'', ''https://api.openai.com/v1'')]"
    by (simp add: updateConfig_def new_LLMProviderManager_def initializeProviders_def has_def
        url_config_def truthy_def env0_def LlamaProvider_def GeminiProvider_def OpenAIProvider_def)
  have c: "m_currentProvider ?m = ''llama''"
    by (simp add: new_LLMProviderManager_def initializeProviders_def)
  from C10_updateConfig_url_ignored [of env0 url_config ?m] r t h b c
  show ?thesis by simp
qed

section \<open>Properties of the queue hook\<close>

lemma findIndex_bounds: "- 1 \<le> findIndex P xs \<and> findIndex P xs < int (length xs)"
  by (induction xs) (auto simp: Let_def)

lemma findIndex_first:
  "j < length xs \<Longrightarrow> P (xs ! j) \<Longrightarrow> (\<forall>k<j. \<not> P (xs ! k)) \<Longrightarrow> findIndex P xs = int j"
proof (induction xs arbitrary: j)
  case Nil
  then show ?case by simp
next
  case (Cons x xs)
  show ?case
  proof (cases j)
    case 0
    with Cons.prems show ?thesis by simp
  next
    case (Suc i)
    with Cons.prems have "\<not> P x" by auto
    moreover have "findIndex P xs = int i"
      using Cons.prems Suc by (intro Cons.IH) auto
    ultimately show ?thesis using Suc by (simp add: Let_def)
  qed
qed

lemma set_swap_with_above:
  "i < int (length q) \<Longrightarrow> set (swap_with_above q i) = set q"
  by (auto simp: swap_with_above_def Let_def set_swap)

lemma length_swap_with_above: "length (swap_with_above q i) = length q"
  by (simp add: swap_with_above_def Let_def)

lemma set_moved_queue:
  "set (swap_with_above q (findIndex P q)) = set q"
  using findIndex_bounds [of P q] by (simp add: set_swap_with_above)

lemma find_unprocessed:
  "\<exists>msg \<in> set (ms :: message list). msg_id msg = i \<and> msg_type msg = User \<and> \<not> processed msg \<Longrightarrow>
   \<exists>m. find (\<lambda>msg. msg_id msg = i) (filter (\<lambda>msg. msg_type msg = User \<and> \<not> processed msg) ms) = Some m
       \<and> msg_id m = i \<and> msg_type m = User \<and> \<not> processed m"
proof -
  assume a: "\<exists>msg \<in> set ms. msg_id msg = i \<and> msg_type msg = User \<and> \<not> processed msg"
  let ?u = "filter (\<lambda>msg. msg_type msg = User \<and> \<not> processed msg) ms"
  from a have "\<exists>x \<in> set ?u. msg_id x = i" by auto
  then obtain m where m: "find (\<lambda>msg. msg_id msg = i) ?u = Some m"
    by (cases "find (\<lambda>msg. msg_id msg = i) ?u") (auto simp: find_None_iff)
  from m obtain k where "k < length ?u" "msg_id (?u ! k) = i" "m = ?u ! k"
    unfolding find_Some_iff by blast
  then have "m \<in> set ?u" "msg_id m = i"
    using nth_mem by blast+
  with m show ?thesis by auto
qed

lemma reordered_ids:
  fixes q :: "queue_item list" and ms :: "message list"
  assumes "\<forall>item \<in> set q. \<exists>msg \<in> set ms.
             msg_id msg = msg_id (qmessage item) \<and> msg_type msg = User \<and> \<not> processed msg"
  shows "map msg_id (List.map_filter
           (\<lambda>queueItem. find (\<lambda>msg. msg_id msg = msg_id (qmessage queueItem))
                            (filter (\<lambda>msg. msg_type msg = User \<and> \<not> processed msg) ms)) q)
         = map (msg_id \<circ> qmessage) q
       \<and> (\<forall>m \<in> set (List.map_filter
           (\<lambda>queueItem. find (\<lambda>msg. msg_id msg = msg_id (qmessage queueItem))
                            (filter (\<lambda>msg. msg_type msg = User \<and> \<not> processed msg) ms)) q).
             msg_type m = User \<and> \<not> processed m)"
  using assms
proof (induction q)
  case Nil
  then show ?case by (simp add: List.map_filter_simps)
next
  case (Cons item q)
  define f where "f = (\<lambda>queueItem::queue_item. find (\<lambda>msg. msg_id msg = msg_id (qmessage queueItem))
                            (filter (\<lambda>msg. msg_type msg = User \<and> \<not> processed msg) ms))"
  have "\<exists>msg \<in> set ms. msg_id msg = msg_id (qmessage item) \<and> msg_type msg = User \<and> \<not> processed msg"
    using Cons.prems by simp
  from find_unprocessed [OF this]
  obtain m where m: "f item = Some m"
      "msg_id m = msg_id (qmessage item)" "msg_type m = User" "\<not> processed m"
    unfolding f_def by blast
  have "\<forall>item \<in> set q. \<exists>msg \<in> set ms.
             msg_id msg = msg_id (qmessage item) \<and> msg_type msg = User \<and> \<not> processed msg"
    using Cons.prems by simp
  from Cons.IH [OF this]
  have ih: "map msg_id (List.map_filter f q) = map (msg_id \<circ> qmessage) q"
    "\<forall>m \<in> set (List.map_filter f q). msg_type m = User \<and> \<not> processed m"
    unfolding f_def by blast+
  have e: "List.map_filter f (item # q) = m # List.map_filter f q"
    using m(1) by (simp add: List.map_filter_simps)
  have "map msg_id (List.map_filter f (item # q)) = map (msg_id \<circ> qmessage) (item # q)"
    unfolding e using ih(1) m(2) by simp
  moreover have "\<forall>x \<in> set (List.map_filter f (item # q)). msg_type x = User \<and> \<not> processed x"
    unfolding e using ih(2) m(3,4) by simp
  ultimately show ?case
    unfolding f_def by (rule conjI)
qed

lemma qih_init: "queue_in_history (initial_state env sid t0)"
  by (simp add: queue_in_history_def initial_state_def)

lemma qih_addMessage: "queue_in_history s \<Longrightarrow> queue_in_history (addMessage mid qi now text s)"
  by (auto simp: queue_in_history_def addMessage_def Let_def)

lemma qih_processQueue:
  "queue_in_history s \<Longrightarrow> queue_in_history (processQueue_start cq cac now s)"
  by (simp add: queue_in_history_def processQueue_start_def Let_def)

lemma qih_resume:
  "queue_in_history s \<Longrightarrow> queue_in_history (fst (processQueue_resume outcome aid now qm s))"
  by (cases outcome) (auto simp: queue_in_history_def processQueue_resume_def Let_def)

lemma new_item_message:
  "item \<in> set (map (\<lambda>(i, msg). \<lparr> qid = gen i, qmessage = msg, priority = 1,
                                       addedAt = DateObj now \<rparr>) (enumerate 0 xs))
   \<Longrightarrow> qmessage item \<in> set xs"
  by (auto simp: in_set_enumerate_eq)

lemma qih_reenqueue:
  assumes "queue_in_history s"
  shows "queue_in_history (reenqueue_check gen now s)"
proof -
  let ?u = "filter (\<lambda>msg. msg_type msg = User \<and> \<not> processed msg) (messages s)"
  let ?new = "map (\<lambda>(i, msg). \<lparr> qid = gen i, qmessage = msg, priority = 1,
                                       addedAt = DateObj now \<rparr>) (enumerate 0 ?u)"
  have "\<exists>msg \<in> set (messages s).
          msg_id msg = msg_id (qmessage item) \<and> msg_type msg = User \<and> \<not> processed msg"
    if "item \<in> set ?new" for item
  proof -
    from that have "qmessage item \<in> set ?u" by (rule new_item_message)
    then show ?thesis by auto
  qed
  with assms show ?thesis
    by (auto simp: queue_in_history_def reenqueue_check_def Let_def)
qed

lemma qih_removeMessage:
  assumes "queue_in_history s"
  shows "queue_in_history (removeMessage messageId s)"
proof -
  have "\<exists>msg \<in> set (filter (\<lambda>msg. msg_id msg \<noteq> messageId) (messages s)).
          msg_id msg = msg_id (qmessage item) \<and> msg_type msg = User \<and> \<not> processed msg"
    if "item \<in> set (queue s)" "msg_id (qmessage item) \<noteq> messageId" for item
  proof -
    from assms that(1) obtain msg where "msg \<in> set (messages s)"
      "msg_id msg = msg_id (qmessage item)" "msg_type msg = User" "\<not> processed msg"
      unfolding queue_in_history_def by blast
    with that(2) show ?thesis by auto
  qed
  then show ?thesis
    by (simp add: queue_in_history_def removeMessage_def)
qed

lemma messages_moveMessageUp:
  "0 < findIndex (\<lambda>item. msg_id (qmessage item) = messageId) cq \<Longrightarrow>
   messages (moveMessageUp cq messageId s) =
     List.map_filter
       (\<lambda>queueItem. find (\<lambda>msg. msg_id msg = msg_id (qmessage queueItem))
          (filter (\<lambda>msg. msg_type msg = User \<and> \<not> processed msg) (messages s)))
       (swap_with_above cq (findIndex (\<lambda>item. msg_id (qmessage item) = messageId) cq))
     @ filter (\<lambda>msg. msg_type msg \<noteq> User \<or> processed msg) (messages s)"
  by (simp add: moveMessageUp_def Let_def)

lemma messages_moveMessageUp_noop:
  "\<not> 0 < findIndex (\<lambda>item. msg_id (qmessage item) = messageId) cq \<Longrightarrow>
   messages (moveMessageUp cq messageId s) = messages s"
  by (simp add: moveMessageUp_def Let_def)

lemma queue_moveMessageUp:
  "queue (moveMessageUp cq messageId s) =
     swap_with_above (queue s) (findIndex (\<lambda>item. msg_id (qmessage item) = messageId) (queue s))"
  by (simp add: moveMessageUp_def Let_def)

lemma qih_moveMessageUp:
  assumes "queue_in_history s"
  shows "queue_in_history (moveMessageUp (queue s) messageId s)"
proof -
  define P where "P = (\<lambda>item::queue_item. msg_id (qmessage item) = messageId)"
  define q' where "q' = swap_with_above (queue s) (findIndex P (queue s))"
  have sq: "set q' = set (queue s)"
    unfolding q'_def by (rule set_moved_queue)
  have inv': "\<forall>item \<in> set q'. \<exists>msg \<in> set (messages s).
             msg_id msg = msg_id (qmessage item) \<and> msg_type msg = User \<and> \<not> processed msg"
    using assms unfolding sq queue_in_history_def .
  have qe: "queue (moveMessageUp (queue s) messageId s) = q'"
    unfolding q'_def P_def by (rule queue_moveMessageUp)
  show ?thesis
  proof (cases "0 < findIndex P (queue s)")
    case False
    then have "messages (moveMessageUp (queue s) messageId s) = messages s"
      unfolding P_def by (rule messages_moveMessageUp_noop)
    with inv' qe show ?thesis
      unfolding queue_in_history_def by simp
  next
    case True
    define r where "r = List.map_filter
           (\<lambda>queueItem. find (\<lambda>msg. msg_id msg = msg_id (qmessage queueItem))
              (filter (\<lambda>msg. msg_type msg = User \<and> \<not> processed msg) (messages s))) q'"
    have ids: "map msg_id r = map (msg_id \<circ> qmessage) q'"
      unfolding r_def using reordered_ids [OF inv'] by (rule conjunct1)
    have un: "\<forall>m \<in> set r. msg_type m = User \<and> \<not> processed m"
      unfolding r_def using reordered_ids [OF inv'] by (rule conjunct2)
    have me: "messages (moveMessageUp (queue s) messageId s)
              = r @ filter (\<lambda>msg. msg_type msg \<noteq> User \<or> processed msg) (messages s)"
      using True unfolding r_def q'_def P_def by (rule messages_moveMessageUp)
    have "\<exists>msg \<in> set r. msg_id msg = msg_id (qmessage item) \<and> msg_type msg = User \<and> \<not> processed msg"
      if "item \<in> set q'" for item
    proof -
      from that have "msg_id (qmessage item) \<in> set (map (msg_id \<circ> qmessage) q')"
        by force
      then have "msg_id (qmessage item) \<in> set (map msg_id r)"
        by (simp only: ids)
      then obtain m where "m \<in> set r" "msg_id m = msg_id (qmessage item)"
        by auto
      with un show ?thesis by blast
    qed
    then show ?thesis
      unfolding queue_in_history_def qe me by auto
  qed
qed

lemma qih_toggle: "queue_in_history s \<Longrightarrow> queue_in_history (toggleAutoProcess s)"
  by (simp add: queue_in_history_def toggleAutoProcess_def)

lemma qih_switchProvider: "queue_in_history s \<Longrightarrow> queue_in_history (switchProvider env n s)"
  by (auto simp: queue_in_history_def switchProvider_def Let_def split: prod.splits bool.splits option.splits)

lemma qih_updateApiKey: "queue_in_history s \<Longrightarrow> queue_in_history (updateApiKey env key fetched s)"
  by (simp add: queue_in_history_def updateApiKey_def Let_def split: option.splits)

lemma qih_checkProviders: "queue_in_history s \<Longrightarrow> queue_in_history (checkProviders probe s)"
  by (simp add: queue_in_history_def checkProviders_def split: sum.splits)

lemma qih_generateBrainstorm:
  "queue_in_history s \<Longrightarrow> queue_in_history (generateBrainstorm outcome today now s)"
  by (simp add: queue_in_history_def generateBrainstorm_def split: sum.splits)

lemma messages_loadFromStorage:
  "messages (loadFromStorage (saveToStorage s now) s')
   = map (\<lambda>msg. msg\<lparr> timestamp := new_Date (timestamp msg) \<rparr>) (map json_message (messages s))"
  by (simp add: loadFromStorage_def saveToStorage_def Let_def split: option.splits)

lemma queue_loadFromStorage:
  "queue (loadFromStorage (saveToStorage s now) s')
   = map (\<lambda>item. item\<lparr> addedAt := new_Date (addedAt item),
                         qmessage := (qmessage item)
                           \<lparr> timestamp := new_Date (timestamp (qmessage item)) \<rparr> \<rparr>)
         (map json_queue_item (queue s))"
  by (simp add: loadFromStorage_def saveToStorage_def Let_def split: option.splits)

lemma qih_loadFromStorage:
  assumes "queue_in_history s"
  shows "queue_in_history (loadFromStorage (saveToStorage s now) s')"
proof -
  define f where "f = (\<lambda>msg::message. msg\<lparr> timestamp := new_Date (timestamp msg) \<rparr>) \<circ> json_message"
  define g where "g = (\<lambda>item::queue_item. item\<lparr> addedAt := new_Date (addedAt item),
                         qmessage := (qmessage item)
                           \<lparr> timestamp := new_Date (timestamp (qmessage item)) \<rparr> \<rparr>)
                      \<circ> json_queue_item"
  have f: "msg_id (f msg) = msg_id msg" "msg_type (f msg) = msg_type msg"
    "processed (f msg) = processed msg" for msg
    by (simp_all add: f_def json_message_def)
  have g: "msg_id (qmessage (g item)) = msg_id (qmessage item)" for item
    by (simp add: g_def json_queue_item_def json_message_def)
  have m: "messages (loadFromStorage (saveToStorage s now) s') = map f (messages s)"
    unfolding messages_loadFromStorage f_def by simp
  have q: "queue (loadFromStorage (saveToStorage s now) s') = map g (queue s)"
    unfolding queue_loadFromStorage g_def by simp
  have "\<exists>msg \<in> set (map f (messages s)).
          msg_id msg = msg_id (qmessage item') \<and> msg_type msg = User \<and> \<not> processed msg"
    if "item' \<in> set (map g (queue s))" for item'
  proof -
    from that obtain item where i: "item \<in> set (queue s)" "item' = g item" by auto
    with assms obtain msg where "msg \<in> set (messages s)"
      "msg_id msg = msg_id (qmessage item)" "msg_type msg = User" "\<not> processed msg"
      unfolding queue_in_history_def by blast
    then have "f msg \<in> set (map f (messages s))" "msg_id (f msg) = msg_id (qmessage item')"
      "msg_type (f msg) = User" "\<not> processed (f msg)"
      using i(2) f g by simp_all
    then show ?thesis by blast
  qed
  then show ?thesis
    unfolding queue_in_history_def m q by blast
qed

lemma reachable_queue_in_history: "reachable env s \<Longrightarrow> queue_in_history s"
proof (induction rule: reachable.induct)
  case (r_init sid t0)
  show ?case by (rule qih_init)
next
  case (r_addMessage s mid qi now c)
  then show ?case by (simp add: qih_addMessage)
next
  case (r_processQueue s now)
  then show ?case by (simp add: qih_processQueue)
next
  case (r_resume s queuedMessages outcome aid now)
  then show ?case by (simp add: qih_resume)
next
  case (r_reenqueue s gen now)
  then show ?case by (simp add: qih_reenqueue)
next
  case (r_removeMessage s messageId)
  then show ?case by (simp add: qih_removeMessage)
next
  case (r_moveMessageUp s messageId)
  then show ?case by (simp add: qih_moveMessageUp)
next
  case (r_toggleAutoProcess s)
  then show ?case by (simp add: qih_toggle)
next
  case (r_switchProvider s providerName)
  then show ?case by (simp add: qih_switchProvider)
next
  case (r_updateApiKey s key fetched)
  then show ?case by (simp add: qih_updateApiKey)
next
  case (r_checkProviders s probe)
  then show ?case by (simp add: qih_checkProviders)
next
  case (r_generateBrainstorm s outcome today now)
  then show ?case by (simp add: qih_generateBrainstorm)
next
  case (r_loadFromStorage s now sid t0)
  then show ?case by (simp add: qih_loadFromStorage)
qed

lemma filter_all: "\<forall>x \<in> set xs. P x \<Longrightarrow> filter P xs = xs"
  by (induction xs) auto

lemma filter_none: "\<forall>x \<in> set xs. \<not> P x \<Longrightarrow> filter P xs = []"
  by (induction xs) auto

lemma displayed_after_move:
  assumes qih: "queue_in_history s"
    and pos: "0 < findIndex (\<lambda>item. msg_id (qmessage item) = messageId) (queue s)"
  shows "map msg_id (filter unprocessed_user (messages (moveMessageUp (queue s) messageId s)))
         = map (msg_id \<circ> qmessage) (queue (moveMessageUp (queue s) messageId s))"
proof -
  define P where "P = (\<lambda>item::queue_item. msg_id (qmessage item) = messageId)"
  define q' where "q' = swap_with_above (queue s) (findIndex P (queue s))"
  define r where "r = List.map_filter
           (\<lambda>queueItem. find (\<lambda>msg. msg_id msg = msg_id (qmessage queueItem))
              (filter (\<lambda>msg. msg_type msg = User \<and> \<not> processed msg) (messages s))) q'"
  define pf where "pf = filter (\<lambda>msg. msg_type msg \<noteq> User \<or> processed msg) (messages s)"
  have sq: "set q' = set (queue s)"
    unfolding q'_def by (rule set_moved_queue)
  have inv': "\<forall>item \<in> set q'. \<exists>msg \<in> set (messages s).
             msg_id msg = msg_id (qmessage item) \<and> msg_type msg = User \<and> \<not> processed msg"
    using qih unfolding sq queue_in_history_def .
  have qe: "queue (moveMessageUp (queue s) messageId s) = q'"
    unfolding q'_def P_def by (rule queue_moveMessageUp)
  have me: "messages (moveMessageUp (queue s) messageId s) = r @ pf"
    using pos unfolding r_def q'_def P_def pf_def by (rule messages_moveMessageUp)
  have ids: "map msg_id r = map (msg_id \<circ> qmessage) q'"
    unfolding r_def using reordered_ids [OF inv'] by (rule conjunct1)
  have un: "\<forall>m \<in> set r. unprocessed_user m"
    unfolding r_def unprocessed_user_def using reordered_ids [OF inv'] by (rule conjunct2)
  have "\<forall>m \<in> set pf. \<not> unprocessed_user m"
    unfolding pf_def unprocessed_user_def by simp
  then have "filter unprocessed_user (r @ pf) = r"
    using un by (simp add: filter_all filter_none)
  then show ?thesis
    unfolding qe me using ids by simp
qed

lemma head_noop:
  "queue s \<noteq> [] \<Longrightarrow> moveMessageUp (queue s) (msg_id (qmessage (hd (queue s)))) s = s"
proof -
  assume "queue s \<noteq> []"
  then obtain x xs where q: "queue s = x # xs" by (cases "queue s") auto
  have "findIndex (\<lambda>item. msg_id (qmessage item) = msg_id (qmessage x)) (x # xs) = 0"
    by simp
  then show ?thesis
    by (simp add: moveMessageUp_def Let_def q swap_with_above_def)
qed

lemma swap_positions:
  assumes "0 < j" "j < length q"
  shows "length (swap_with_above q (int j)) = length q
         \<and> swap_with_above q (int j) ! (j - 1) = q ! j
         \<and> swap_with_above q (int j) ! j = q ! (j - 1)
         \<and> (\<forall>k < length q. k \<noteq> j \<and> k \<noteq> j - 1 \<longrightarrow> swap_with_above q (int j) ! k = q ! k)"
  using assms by (simp add: swap_with_above_def Let_def nth_list_update)

text \<open>
  Claim C7, for the entries that the lookup by message id finds. In every reachable
  state, moving the head entry up changes nothing. Moving the entry at a position
  \<open>j > 0\<close> that is the first one carrying its message id swaps it with the entry at
  \<open>j - 1\<close> and leaves every other position of the queue as it was, and afterwards
  the unprocessed user messages appear in the history in the order of the queue.
\<close>

theorem C7_moveMessageUp:
  assumes "reachable env s"
  shows "(queue s \<noteq> [] \<longrightarrow>
            moveMessageUp (queue s) (msg_id (qmessage (hd (queue s)))) s = s)
       \<and> (0 < j \<and> j < length (queue s)
            \<and> (\<forall>k<j. msg_id (qmessage (queue s ! k)) \<noteq> msg_id (qmessage (queue s ! j))) \<longrightarrow>
            length (queue (moveMessageUp (queue s) (msg_id (qmessage (queue s ! j))) s))
              = length (queue s)
            \<and> queue (moveMessageUp (queue s) (msg_id (qmessage (queue s ! j))) s) ! (j - 1)
              = queue s ! j
            \<and> queue (moveMessageUp (queue s) (msg_id (qmessage (queue s ! j))) s) ! j
              = queue s ! (j - 1)
            \<and> (\<forall>k < length (queue s). k \<noteq> j \<and> k \<noteq> j - 1 \<longrightarrow>
                  queue (moveMessageUp (queue s) (msg_id (qmessage (queue s ! j))) s) ! k
                  = queue s ! k)
            \<and> map msg_id (filter unprocessed_user
                  (messages (moveMessageUp (queue s) (msg_id (qmessage (queue s ! j))) s)))
              = map (msg_id \<circ> qmessage)
                  (queue (moveMessageUp (queue s) (msg_id (qmessage (queue s ! j))) s)))"
proof (rule conjI; rule impI)
  assume "queue s \<noteq> []"
  then show "moveMessageUp (queue s) (msg_id (qmessage (hd (queue s)))) s = s"
    by (rule head_noop)
next
  assume a: "0 < j \<and> j < length (queue s)
            \<and> (\<forall>k<j. msg_id (qmessage (queue s ! k)) \<noteq> msg_id (qmessage (queue s ! j)))"
  define mid where "mid = msg_id (qmessage (queue s ! j))"
  have fi: "findIndex (\<lambda>item. msg_id (qmessage item) = mid) (queue s) = int j"
    using a unfolding mid_def by (intro findIndex_first) auto
  have qe: "queue (moveMessageUp (queue s) mid s) = swap_with_above (queue s) (int j)"
    unfolding queue_moveMessageUp fi ..
  have sp: "length (swap_with_above (queue s) (int j)) = length (queue s)
         \<and> swap_with_above (queue s) (int j) ! (j - 1) = queue s ! j
         \<and> swap_with_above (queue s) (int j) ! j = queue s ! (j - 1)
         \<and> (\<forall>k < length (queue s). k \<noteq> j \<and> k \<noteq> j - 1 \<longrightarrow>
                swap_with_above (queue s) (int j) ! k = queue s ! k)"
    using a by (intro swap_positions) auto
  have qih: "queue_in_history s"
    using assms by (rule reachable_queue_in_history)
  have pos: "0 < findIndex (\<lambda>item. msg_id (qmessage item) = mid) (queue s)"
    using a fi by simp
  have d: "map msg_id (filter unprocessed_user (messages (moveMessageUp (queue s) mid s)))
         = map (msg_id \<circ> qmessage) (queue (moveMessageUp (queue s) mid s))"
    using qih pos by (rule displayed_after_move)
  show "length (queue (moveMessageUp (queue s) (msg_id (qmessage (queue s ! j))) s))
              = length (queue s)
            \<and> queue (moveMessageUp (queue s) (msg_id (qmessage (queue s ! j))) s) ! (j - 1)
              = queue s ! j
            \<and> queue (moveMessageUp (queue s) (msg_id (qmessage (queue s ! j))) s) ! j
              = queue s ! (j - 1)
            \<and> (\<forall>k < length (queue s). k \<noteq> j \<and> k \<noteq> j - 1 \<longrightarrow>
                  queue (moveMessageUp (queue s) (msg_id (qmessage (queue s ! j))) s) ! k
                  = queue s ! k)
            \<and> map msg_id (filter unprocessed_user
                  (messages (moveMessageUp (queue s) (msg_id (qmessage (queue s ! j))) s)))
              = map (msg_id \<circ> qmessage)
                  (queue (moveMessageUp (queue s) (msg_id (qmessage (queue s ! j))) s))"
    using sp d unfolding mid_def [symmetric] qe by blast
qed

lemma sq2_queue: "map (msg_id \<circ> qmessage) (queue sq2) = [''msg_1'', ''msg_2'']"
  by (simp add: sq2_def st1_def st0_def addMessage_def initial_state_def Let_def)

lemma sq2_reachable: "reachable env0 sq2"
  unfolding sq2_def st1_def st0_def by (intro r_addMessage r_init)

theorem C7_witness:
  "reachable env0 sq2
   \<and> map (msg_id \<circ> qmessage) (queue sq2) = [''msg_1'', ''msg_2'']
   \<and> moveMessageUp (queue sq2) ''msg_1'' sq2 = sq2
   \<and> map (msg_id \<circ> qmessage) (queue (moveMessageUp (queue sq2) ''msg_2'' sq2))
       = [''msg_2'', ''msg_1'']
   \<and> map msg_id (filter unprocessed_user (messages (moveMessageUp (queue sq2) ''msg_2'' sq2)))
       = [''msg_2'', ''msg_1'']"
proof -
  have q: "queue sq2 \<noteq> []" "length (queue sq2) = 2"
    "msg_id (qmessage (hd (queue sq2))) = ''msg_1''"
    "msg_id (qmessage (queue sq2 ! 0)) = ''msg_1''"
    "msg_id (qmessage (queue sq2 ! 1)) = ''msg_2''"
    by (simp_all add: sq2_def st1_def st0_def addMessage_def initial_state_def Let_def)
  have h: "(0::nat) < 1 \<and> 1 < length (queue sq2)
        \<and> (\<forall>k<1. msg_id (qmessage (queue sq2 ! k)) \<noteq> msg_id (qmessage (queue sq2 ! 1)))"
    using q by simp
  have m: "map (msg_id \<circ> qmessage) (queue (moveMessageUp (queue sq2) ''msg_2'' sq2))
       = [''msg_2'', ''msg_1'']"
    by (simp add: sq2_def st1_def st0_def addMessage_def initial_state_def Let_def
        moveMessageUp_def swap_with_above_def)
  from C7_moveMessageUp [OF sq2_reachable, of 1] h q m sq2_queue sq2_reachable
  show ?thesis by simp
qed

lemma processQueue_guard:
  "processingRef s \<or> cq = [] \<Longrightarrow> processQueue_start cq cac now s = s"
  by (auto simp: processQueue_start_def)

lemma processQueue_started:
  "\<not> processingRef s \<Longrightarrow> cq \<noteq> [] \<Longrightarrow>
   processingRef (processQueue_start cq cac now s)
   \<and> length (issued (processQueue_start cq cac now s)) = length (issued s) + 1
   \<and> inflight (processQueue_start cq cac now s) = Some (map qmessage cq)
   \<and> queue (processQueue_start cq cac now s) = []"
  by (simp add: processQueue_start_def Let_def)

text \<open>
  Claim C2. A batch drain invoked while one is in flight, or from a closure whose
  queue is empty, returns without issuing a generation call and without changing any
  state; two invocations in immediate succession issue exactly one generation call.
\<close>

theorem C2_processQueue_idempotent:
  "(processingRef s \<or> cq = [] \<longrightarrow> processQueue_start cq cac now s = s)
   \<and> (\<not> processingRef s \<and> cq \<noteq> [] \<longrightarrow>
        processQueue_start cq' cac' now' (processQueue_start cq cac now s)
          = processQueue_start cq cac now s
        \<and> length (issued (processQueue_start cq' cac' now' (processQueue_start cq cac now s)))
          = length (issued s) + 1)"
proof (rule conjI; rule impI)
  assume "processingRef s \<or> cq = []"
  then show "processQueue_start cq cac now s = s" by (rule processQueue_guard)
next
  assume a: "\<not> processingRef s \<and> cq \<noteq> []"
  then have p: "processingRef (processQueue_start cq cac now s)"
    and l: "length (issued (processQueue_start cq cac now s)) = length (issued s) + 1"
    using processQueue_started [of s cq cac now] by blast+
  have "processQueue_start cq' cac' now' (processQueue_start cq cac now s)
          = processQueue_start cq cac now s"
    using p by (intro processQueue_guard) simp
  with l show "processQueue_start cq' cac' now' (processQueue_start cq cac now s)
          = processQueue_start cq cac now s
        \<and> length (issued (processQueue_start cq' cac' now' (processQueue_start cq cac now s)))
          = length (issued s) + 1" by simp
qed

lemma st1_facts:
  "\<not> processingRef st1" "queue st1 \<noteq> []" "issued st1 = []" "queue st0 = []"
  "map qmessage (queue st1)
     = [\<lparr> msg_id = ''msg_1'', content = ''idea 1'', timestamp = DateObj 1000,
           msg_type = User, processed = False \<rparr>]"
  by (simp_all add: st1_def st0_def addMessage_def initial_state_def Let_def)

theorem C2_witness:
  "queue st0 = []
   \<and> processQueue_start (queue st0) (agentContext st0) 2000 st0 = st0
   \<and> \<not> processingRef st1 \<and> queue st1 \<noteq> []
   \<and> processQueue_start (queue st1) (agentContext st1) 2001 st2 = st2
   \<and> length (issued (processQueue_start (queue st1) (agentContext st1) 2001 st2)) = 1"
  using st1_facts(1-4)
    C2_processQueue_idempotent [of st0 "queue st0" "agentContext st0" 2000]
    C2_processQueue_idempotent [of st1 "queue st1" "agentContext st1" 2000
      "queue st1" "agentContext st1" 2001]
  unfolding st2_def [symmetric] by auto

lemma st1_fields:
  "messages st1 = [message1]" "map qmessage (queue st1) = [message1]"
  "pendingMessages (stats st1) = 1" "reenqueue_timers st1 = 0"
  by (simp_all add: st1_def st0_def addMessage_def initial_state_def Let_def message1_def)

lemma st2_fields:
  "messages st2 = [message1\<lparr>processed := True\<rparr>]" "queue st2 = []"
  "pendingMessages (stats st2) = 0" "inflight st2 = Some (map qmessage (queue st1))"
  "reenqueue_timers st2 = 0" "processingRef st2"
  using st1_facts(1,2) st1_fields
  by (simp_all add: st2_def processQueue_start_def Let_def message1_def)

lemma st3_fields:
  "messages st3 = [message1\<lparr>processed := True\<rparr>, message2]"
  "map qmessage (queue st3) = [message2]"
  "pendingMessages (stats st3) = 1" "inflight st3 = Some (map qmessage (queue st1))"
  "reenqueue_timers st3 = 0"
  using st2_fields by (simp_all add: st3_def addMessage_def Let_def message2_def)

lemma st4_fields:
  "filter unprocessed_user (messages st4) = [message2]"
  "map qmessage (queue st4) = [message2]"
  "pendingMessages (stats st4) = 1" "reenqueue_timers st4 = 1"
  using st3_fields
  by (simp_all add: st4_def processQueue_resume_def Let_def unprocessed_user_def
      message1_def message2_def)

lemma unprocessed_user_eq:
  "(\<lambda>msg. msg_type msg = User \<and> \<not> processed msg) = unprocessed_user"
  by (simp add: fun_eq_iff unprocessed_user_def)

lemma st5_fields:
  "filter unprocessed_user (messages st5) = [message2]"
  "map qmessage (queue st5) = [message2, message2]"
  "pendingMessages (stats st5) = 2"
  using st4_fields
  by (simp_all add: st5_def reenqueue_check_def Let_def unprocessed_user_eq enumerate_eq_zip)

lemma st5_reachable: "reachable env0 st5"
proof -
  have 1: "reachable env0 st1"
    unfolding st1_def st0_def by (intro r_addMessage r_init)
  have 2: "reachable env0 st2"
    unfolding st2_def using 1 by (rule r_processQueue)
  have 3: "reachable env0 st3"
    unfolding st3_def using 2 by (rule r_addMessage)
  have 4: "reachable env0 st4"
    unfolding st4_def using 3 st3_fields(4) by (rule r_resume)
  show ?thesis
    unfolding st5_def using 4 by (rule r_reenqueue) (simp add: st4_fields)
qed

text \<open>
  Claim C1: in every reachable state \<open>pendingMessages\<close> is the number of user messages
  of the history that are not processed, also when a message is submitted during a
  drain. The code breaks this on the run: submit a message, start the drain, submit a
  second message while the drain is in flight, let the drain finish and its re-enqueue
  check run. \<^verbatim>\<open>addMessage\<close> has already counted and queued the second message; the
  check counts and queues it again, so \<open>pendingMessages\<close> is 2 with one unprocessed
  user message in the history.
\<close>

theorem C1_pending_counted_twice:
  "reachable env0 st5
   \<and> pendingMessages (stats st5) = 2
   \<and> length (filter unprocessed_user (messages st5)) = 1"
  using st5_reachable st5_fields by simp

text \<open>
  Claim C3: in every reachable state each message id occurs in at most one queue
  entry, and each entry stands for one unprocessed message of the history. The code
  breaks this on the same run: after the re-enqueue check the queue holds two entries
  for the one unprocessed message \<open>msg_2\<close>.
\<close>

theorem C3_message_queued_twice:
  "reachable env0 st5
   \<and> map (msg_id \<circ> qmessage) (queue st5) = [''msg_2'', ''msg_2'']
   \<and> \<not> distinct (map (msg_id \<circ> qmessage) (queue st5))
   \<and> map msg_id (filter unprocessed_user (messages st5)) = [''msg_2'']"
proof -
  have "map (msg_id \<circ> qmessage) (queue st5) = map msg_id (map qmessage (queue st5))"
    by simp
  then have "map (msg_id \<circ> qmessage) (queue st5) = [''msg_2'', ''msg_2'']"
    unfolding st5_fields by (simp add: message2_def)
  then show ?thesis
    using st5_reachable st5_fields(1) by (simp add: message2_def)
qed

lemma st5_queue:
  "queue st5 = [\<lparr> qid = ''queue_2'', qmessage = message2, priority = 1,
                   addedAt = DateObj 3000 \<rparr>,
                \<lparr> qid = ''queue_3'', qmessage = message2, priority = 1,
                   addedAt = DateObj 4100 \<rparr>]"
proof -
  have 2: "queue st2 = []"
    using st1_facts(1,2) by (simp add: st2_def processQueue_start_def Let_def)
  have 3: "queue st3 = [\<lparr> qid = ''queue_2'', qmessage = message2, priority = 1,
                           addedAt = DateObj 3000 \<rparr>]"
    using 2 by (simp add: st3_def addMessage_def Let_def message2_def)
  have 4: "queue st4 = queue st3"
    by (simp add: st4_def processQueue_resume_def Let_def)
  show ?thesis
    using st4_fields(1) 3 4
    by (simp add: st5_def reenqueue_check_def Let_def unprocessed_user_eq enumerate_eq_zip)
qed

text \<open>
  Claim C7 as stated, for every queue state and any non-head entry, fails on the
  state reached by submitting a message during a drain: its queue holds two entries
  for the message \<open>msg_2\<close>. Promoting the second entry looks its message id up, finds
  the first entry at position 0 and changes nothing: the promoted entry is not at
  position 0 afterwards, and the one displayed unprocessed message does not match the
  two queue entries.
\<close>

theorem C7_duplicate_entry_not_promoted:
  "reachable env0 st5
   \<and> length (queue st5) = 2
   \<and> moveMessageUp (queue st5) (msg_id (qmessage (queue st5 ! 1))) st5 = st5
   \<and> queue (moveMessageUp (queue st5) (msg_id (qmessage (queue st5 ! 1))) st5) ! 0
       \<noteq> queue st5 ! 1
   \<and> map msg_id (filter unprocessed_user
         (messages (moveMessageUp (queue st5) (msg_id (qmessage (queue st5 ! 1))) st5)))
       \<noteq> map (msg_id \<circ> qmessage)
           (queue (moveMessageUp (queue st5) (msg_id (qmessage (queue st5 ! 1))) st5))"
proof -
  have i: "msg_id (qmessage (queue st5 ! 1)) = ''msg_2''"
    unfolding st5_queue by (simp add: message2_def)
  have f: "findIndex (\<lambda>item. msg_id (qmessage item) = ''msg_2'') (queue st5) = 0"
    unfolding st5_queue by (simp add: message2_def)
  have n: "moveMessageUp (queue st5) ''msg_2'' st5 = st5"
    by (simp add: moveMessageUp_def Let_def f swap_with_above_def)
  have d: "queue st5 ! 0 \<noteq> queue st5 ! 1"
    unfolding st5_queue by simp
  have u: "map msg_id (filter unprocessed_user (messages st5)) = [''msg_2'']"
    unfolding st5_fields(1) by (simp add: message2_def)
  have q: "map (msg_id \<circ> qmessage) (queue st5) = [''msg_2'', ''msg_2'']"
    unfolding st5_queue by (simp add: message2_def)
  have l: "length (queue st5) = 2"
    unfolding st5_queue by simp
  show ?thesis
    unfolding i n using st5_reachable l d u q by simp
qed

lemma resume_failure:
  "messages (fst (processQueue_resume (Inl e) aid now qm s)) = messages s"
  "queue (fst (processQueue_resume (Inl e) aid now qm s)) = queue s"
  "agentContext (fst (processQueue_resume (Inl e) aid now qm s)) = agentContext s"
  "stats (fst (processQueue_resume (Inl e) aid now qm s)) = stats s"
  "\<not> isProcessing (fst (processQueue_resume (Inl e) aid now qm s))"
  "\<not> processingRef (fst (processQueue_resume (Inl e) aid now qm s))"
  "console_errors (fst (processQueue_resume (Inl e) aid now qm s)) = console_errors s @ [e]"
  "snd (processQueue_resume (Inl e) aid now qm s) = Fulfilled"
  "hook_return (fst (processQueue_resume (Inl e) aid now qm s))
     = (hook_return s)\<lparr>v_isProcessing := False\<rparr>"
  by (simp_all add: processQueue_resume_def Let_def hook_return_def)

lemma start_fields:
  assumes "\<not> processingRef s" "cq \<noteq> []"
  shows "messages (processQueue_start cq cac now s)
           = map (\<lambda>msg. if list_ex (\<lambda>qm. msg_id qm = msg_id msg) (map qmessage cq)
                        then msg\<lparr>processed := True\<rparr> else msg) (messages s)"
    and "conversationHistory (agentContext (processQueue_start cq cac now s))
           = conversationHistory cac @ map to_agent_message (map qmessage cq)"
  using assms by (simp_all add: processQueue_start_def Let_def)

lemma marked_processed:
  "m \<in> set (map (\<lambda>msg. if list_ex (\<lambda>qm. msg_id qm = msg_id msg) batch
                        then msg\<lparr>processed := True\<rparr> else msg) ms)
   \<Longrightarrow> msg_id m \<in> msg_id ` set batch \<Longrightarrow> processed m"
  by (auto simp: list_ex_iff split: if_splits)

lemma marked_same_shape:
  "map msg_id (map (\<lambda>msg. if list_ex (\<lambda>qm. msg_id qm = msg_id msg) batch
                        then msg\<lparr>processed := True\<rparr> else msg) ms) = map msg_id ms"
  "map msg_type (map (\<lambda>msg. if list_ex (\<lambda>qm. msg_id qm = msg_id msg) batch
                        then msg\<lparr>processed := True\<rparr> else msg) ms) = map msg_type ms"
  by (induction ms) auto

lemma reenqueue_queue:
  "item \<in> set (queue (reenqueue_check gen now s)) \<Longrightarrow>
   item \<in> set (queue s) \<or> (qmessage item \<in> set (messages s) \<and> \<not> processed (qmessage item))"
proof -
  assume a: "item \<in> set (queue (reenqueue_check gen now s))"
  let ?u = "filter (\<lambda>msg. msg_type msg = User \<and> \<not> processed msg) (messages s)"
  let ?new = "map (\<lambda>(i, msg). \<lparr> qid = gen i, qmessage = msg, priority = 1,
                                       addedAt = DateObj now \<rparr>) (enumerate 0 ?u)"
  from a have "item \<in> set (queue s) \<or> item \<in> set ?new"
    by (auto simp: reenqueue_check_def Let_def split: if_splits)
  then show ?thesis
  proof
    assume "item \<in> set (queue s)" then show ?thesis ..
  next
    assume "item \<in> set ?new"
    then have "qmessage item \<in> set ?u" by (rule new_item_message)
    then show ?thesis by simp
  qed
qed

text \<open>
  What a batch cycle does when its generation call fails: no assistant message is
  appended, the turns of the batch stay in the conversation context, the drained
  messages stay marked processed, the batch is not put back in the queue (neither at
  once nor by the re-enqueue check), the engine is idle again and starts a new cycle
  on request. The error goes to the console; the promise of \<^verbatim>\<open>processQueue\<close>
  fulfils, and what the hook returns is what it returned during the drain with
  \<open>isProcessing\<close> off.
\<close>

lemma failed_generation_consumes_batch:
  fixes s :: hook_state and t1 t2 :: int and e :: gen_error and aid :: string
  assumes "\<not> processingRef s" and "queue s \<noteq> []"
  defines "batch \<equiv> map qmessage (queue s)"
  defines "s1 \<equiv> processQueue_start (queue s) (agentContext s) t1 s"
  defines "s2 \<equiv> fst (processQueue_resume (Inl e) aid t2 batch s1)"
  shows "inflight s1 = Some batch
       \<and> messages s2 = messages s1
       \<and> map msg_id (messages s2) = map msg_id (messages s)
       \<and> map msg_type (messages s2) = map msg_type (messages s)
       \<and> conversationHistory (agentContext s2)
           = conversationHistory (agentContext s) @ map to_agent_message batch
       \<and> (\<forall>m \<in> set (messages s2). msg_id m \<in> msg_id ` set batch \<longrightarrow> processed m)
       \<and> queue s2 = []
       \<and> (\<forall>item \<in> set (queue (reenqueue_check gen t3 s2)).
             msg_id (qmessage item) \<notin> msg_id ` set batch)
       \<and> \<not> isProcessing s2 \<and> \<not> processingRef s2
       \<and> (cq \<noteq> [] \<longrightarrow> length (issued (processQueue_start cq cac t4 s2)) = length (issued s2) + 1)
       \<and> console_errors s2 = console_errors s @ [e]
       \<and> snd (processQueue_resume (Inl e) aid t2 batch s1) = Fulfilled
       \<and> hook_return s2 = (hook_return s1)\<lparr>v_isProcessing := False\<rparr>"
proof -
  have st: "inflight s1 = Some batch" "queue s1 = []"
    unfolding s1_def batch_def using processQueue_started [OF assms(1,2)] by blast+
  have m1: "messages s1
           = map (\<lambda>msg. if list_ex (\<lambda>qm. msg_id qm = msg_id msg) batch
                        then msg\<lparr>processed := True\<rparr> else msg) (messages s)"
    unfolding s1_def batch_def using assms(1,2) by (rule start_fields(1))
  have c1: "conversationHistory (agentContext s1)
           = conversationHistory (agentContext s) @ map to_agent_message batch"
    unfolding s1_def batch_def using assms(1,2) by (rule start_fields(2))
  have ce: "console_errors s1 = console_errors s"
    unfolding s1_def using assms(1,2) by (simp add: processQueue_start_def Let_def)
  have m2: "messages s2 = messages s1" and q2: "queue s2 = []"
    and a2: "agentContext s2 = agentContext s1"
    and i2: "\<not> isProcessing s2" and p2: "\<not> processingRef s2"
    and e2: "console_errors s2 = console_errors s @ [e]"
    unfolding s2_def by (simp_all add: resume_failure st ce)
  have pr: "\<forall>m \<in> set (messages s2). msg_id m \<in> msg_id ` set batch \<longrightarrow> processed m"
    unfolding m2 m1 using marked_processed by blast
  have rq: "msg_id (qmessage item) \<notin> msg_id ` set batch"
    if "item \<in> set (queue (reenqueue_check gen t3 s2))" for item
  proof -
    from reenqueue_queue [OF that] q2
    have "qmessage item \<in> set (messages s2)" "\<not> processed (qmessage item)" by auto
    with pr show ?thesis by blast
  qed
  have acc: "cq \<noteq> [] \<longrightarrow>
             length (issued (processQueue_start cq cac t4 s2)) = length (issued s2) + 1"
    using processQueue_started [OF p2] by blast
  have v: "hook_return s2 = (hook_return s1)\<lparr>v_isProcessing := False\<rparr>"
    unfolding s2_def by (rule resume_failure(9))
  have ids: "map msg_id (messages s2) = map msg_id (messages s)"
    unfolding m2 m1 by (rule marked_same_shape(1))
  have tys: "map msg_type (messages s2) = map msg_type (messages s)"
    unfolding m2 m1 by (rule marked_same_shape(2))
  have c2: "conversationHistory (agentContext s2)
           = conversationHistory (agentContext s) @ map to_agent_message batch"
    unfolding a2 by (rule c1)
  have rq': "\<forall>item \<in> set (queue (reenqueue_check gen t3 s2)).
             msg_id (qmessage item) \<notin> msg_id ` set batch"
    using rq by blast
  have f: "snd (processQueue_resume (Inl e) aid t2 batch s1) = Fulfilled"
    by (rule resume_failure(8))
  show ?thesis
    by (intro conjI) (fact st(1) m2 ids tys c2 pr q2 rq' i2 p2 acc e2 f v)+
qed

lemma failed_generation_example:
  "\<not> processingRef st1 \<and> queue st1 \<noteq> []
   \<and> queue (fst (processQueue_resume (Inl (AdapterError ''HTTP error! status: 500''))
                 ''msg_3'' 4000 (map qmessage (queue st1)) st2)) = []
   \<and> map msg_type (messages (fst (processQueue_resume
         (Inl (AdapterError ''HTTP error! status: 500''))
                 ''msg_3'' 4000 (map qmessage (queue st1)) st2))) = [User]
   \<and> console_errors (fst (processQueue_resume (Inl (AdapterError ''HTTP error! status: 500''))
                 ''msg_3'' 4000 (map qmessage (queue st1)) st2))
       = [AdapterError ''HTTP error! status: 500'']"
proof -
  have m: "map msg_type (messages st1) = [User]" "console_errors st1 = []"
    by (simp_all add: st1_def st0_def addMessage_def initial_state_def Let_def)
  let ?s2 = "fst (processQueue_resume (Inl (AdapterError ''HTTP error! status: 500''))
                 ''msg_3'' 4000 (map qmessage (queue st1)) st2)"
  note w = failed_generation_consumes_batch [OF st1_facts(1,2),
      of 2000 "AdapterError ''HTTP error! status: 500''" "''msg_3''" 4000, folded st2_def]
  from w have "queue ?s2 = []" by blast
  moreover from w have "map msg_type (messages ?s2) = map msg_type (messages st1)" by blast
  moreover from w have "console_errors ?s2
       = console_errors st1 @ [AdapterError ''HTTP error! status: 500'']" by blast
  ultimately show ?thesis
    using st1_facts(1,2) m by simp
qed

lemma st2_reachable: "reachable env0 st2"
  unfolding st2_def st1_def st0_def by (intro r_processQueue r_addMessage r_init)

text \<open>
  Claim C4: when the generation call of a batch cycle fails, no assistant message is
  appended, the batch stays consumed, the engine is idle again, and a failure signal
  is observable by the caller. The code breaks the last part on the run: submit a
  message, start the drain, let the generation call fail. The \<^verbatim>\<open>catch\<close> block of
  \<^verbatim>\<open>processQueue\<close> only writes the error to the console: the promise fulfils, and what
  the hook returns is what it returned during the drain with \<open>isProcessing\<close> off,
  so no value that reaches the caller carries the error. The error banner of the
  chat interface is never set, while the sibling callback of the summary does hand an
  error text to its caller.
\<close>

theorem C4_failure_only_logged:
  "reachable env0
     (fst (processQueue_resume
             (Inl (AdapterError ''Failed to generate response: HTTP error! status: 500''))
             ''msg_3'' 4000 (map qmessage (queue st1)) st2))
   \<and> inflight st2 = Some (map qmessage (queue st1))
   \<and> snd (processQueue_resume
             (Inl (AdapterError ''Failed to generate response: HTTP error! status: 500''))
             ''msg_3'' 4000 (map qmessage (queue st1)) st2) = Fulfilled
   \<and> hook_return (fst (processQueue_resume
             (Inl (AdapterError ''Failed to generate response: HTTP error! status: 500''))
             ''msg_3'' 4000 (map qmessage (queue st1)) st2))
       = (hook_return st2)\<lparr>v_isProcessing := False\<rparr>
   \<and> v_messages (hook_return (fst (processQueue_resume
             (Inl (AdapterError ''Failed to generate response: HTTP error! status: 500''))
             ''msg_3'' 4000 (map qmessage (queue st1)) st2)))
       = [message1\<lparr>processed := True\<rparr>]
   \<and> v_queue (hook_return (fst (processQueue_resume
             (Inl (AdapterError ''Failed to generate response: HTTP error! status: 500''))
             ''msg_3'' 4000 (map qmessage (queue st1)) st2))) = []
   \<and> console_errors (fst (processQueue_resume
             (Inl (AdapterError ''Failed to generate response: HTTP error! status: 500''))
             ''msg_3'' 4000 (map qmessage (queue st1)) st2))
       = [AdapterError ''Failed to generate response: HTTP error! status: 500'']"
proof -
  let ?e = "AdapterError ''Failed to generate response: HTTP error! status: 500''"
  have r: "reachable env0
     (fst (processQueue_resume (Inl ?e) ''msg_3'' 4000 (map qmessage (queue st1)) st2))"
    using st2_reachable st2_fields(4) by (rule r_resume)
  have c: "console_errors st2 = []"
    using st1_facts(1,2)
    by (simp add: st2_def processQueue_start_def Let_def)
       (simp add: st1_def st0_def addMessage_def initial_state_def Let_def)
  have v: "hook_return (fst (processQueue_resume (Inl ?e) ''msg_3'' 4000
             (map qmessage (queue st1)) st2)) = (hook_return st2)\<lparr>v_isProcessing := False\<rparr>"
    by (rule resume_failure(9))
  have m: "v_messages ((hook_return st2)\<lparr>v_isProcessing := False\<rparr>)
             = [message1\<lparr>processed := True\<rparr>]"
    "v_queue ((hook_return st2)\<lparr>v_isProcessing := False\<rparr>) = []"
    by (simp_all add: hook_return_def st2_fields)
  show ?thesis
    using r st2_fields(4) c m unfolding v by (simp add: resume_failure)
qed

lemma response0_unparsable: "JSON_parse response0 = None"
  by (simp add: JSON_parse_def response0_def skip_ws_def is_ws_def parse_literal_def
      parse_number_def is_digit_def)

lemma payload0_parsed:
  "JSON_parse payload0 =
     Some (JObj
       [(''title'', JStr ''Session''), (''overview'', JStr ''Two ideas''),
        (''keyInsights'',
           JArr [JObj [(''id'', JStr ''insight_1''), (''title'', JStr ''A''),
                       (''content'', JStr ''B''), (''type'', JStr ''insight''),
                       (''priority'', JNum 1 0), (''relatedMessages'', JArr [])]]),
        (''generatedIdeas'', JArr []), (''actionItems'', JArr []),
        (''questions'', JArr []), (''nextSteps'', JArr [JStr ''Step 1''])])"
  by code_simp

lemma fallback_document:
  assumes "JSON_parse text = None" and "text \<noteq> []"
  shows "generateMarkdownSummary
           (Inr \<lparr>resp_content = text, resp_model = md, resp_finishReason = fr\<rparr>) today now
         = Inr \<lparr> ms_title = JStr ''Brainstorm Session'',
                 ms_overview = JStr text,
                 keyInsights = JArr [],
                 ms_generatedIdeas = JArr [],
                 actionItems = JArr [],
                 questions = JArr [],
                 nextSteps = JArr [],
                 createdAt = DateObj now \<rparr>"
  using assms
  by (simp add: generateMarkdownSummary_def parseMarkdownSummary_def property_def or_else_def)

lemma null_response_throws:
  "generateMarkdownSummary
     (Inr \<lparr>resp_content = ''null'', resp_model = None, resp_finishReason = None\<rparr>) today now
   = Inl (TypeError ''Cannot read properties of null (reading title)'')"
  by (simp add: generateMarkdownSummary_def parseMarkdownSummary_def property_def
      JSON_parse_def skip_ws_def is_ws_def parse_literal_def)

text \<open>
  Claim C5: a well-formed payload inside a fenced block with prose around it still
  gives a summary document with key insights, and an unparsable response gives the
  minimal document. The code breaks the first part:
  \<^verbatim>\<open>parseMarkdownSummary\<close> only tries \<^verbatim>\<open>JSON.parse\<close> on the whole response (it has
  neither the fenced-block nor the brace-scan step of \<^verbatim>\<open>parseAgentResponse\<close>), so
  the response is taken as unparsable and the document has no key insights, although
  the payload alone parses to a document with one.
\<close>

theorem C5_fenced_payload_falls_back:
  "(\<exists>v ki. JSON_parse payload0 = Some v
         \<and> property v ''keyInsights'' = Inr (Some (JArr ki)) \<and> ki \<noteq> [])
   \<and> JSON_parse response0 = None
   \<and> generateMarkdownSummary
        (Inr \<lparr>resp_content = response0, resp_model = Some ''llama3.1'',
              resp_finishReason = Some ''stop''\<rparr>) ''11/2/2026'' 6000
     = Inr \<lparr> ms_title = JStr ''Brainstorm Session'',
             ms_overview = JStr response0,
             keyInsights = JArr [],
             ms_generatedIdeas = JArr [],
             actionItems = JArr [],
             questions = JArr [],
             nextSteps = JArr [],
             createdAt = DateObj 6000 \<rparr>"
proof -
  have ne: "response0 \<noteq> []" by (simp add: response0_def)
  have "\<exists>v ki. JSON_parse payload0 = Some v
         \<and> property v ''keyInsights'' = Inr (Some (JArr ki)) \<and> ki \<noteq> []"
    unfolding payload0_parsed by (simp add: property_def)
  then show ?thesis
    using response0_unparsable fallback_document [OF response0_unparsable ne] by simp
qed

lemma toJSON_new_Date: "is_time_value v \<Longrightarrow> new_Date (toJSON v) = v"
  by (cases v) (simp_all add: is_time_value_def toJSON_def new_Date_def)

lemma messages_roundtrip:
  assumes "\<forall>msg \<in> set (messages s). is_time_value (timestamp msg)"
  shows "messages (loadFromStorage (saveToStorage s now) s') = messages s"
proof -
  have "map (\<lambda>msg. msg\<lparr> timestamp := new_Date (timestamp msg) \<rparr>) (map json_message ms) = ms"
    if "\<forall>msg \<in> set ms. is_time_value (timestamp msg)" for ms :: "message list"
    using that by (induction ms) (simp_all add: json_message_def toJSON_new_Date)
  from this [OF assms] show ?thesis
    by (simp add: loadFromStorage_def saveToStorage_def Let_def split: option.splits)
qed

lemma st6_fields:
  "map am_timestamp (conversationHistory (agentContext st6)) = [DateObj 1000]"
  "map_option createdAt (markdownSummary st6) = Some (DateObj 6000)"
  "map timestamp (messages st6) = [DateObj 1000]"
proof -
  have c: "conversationHistory (agentContext st2)
           = [\<lparr> am_id = ''msg_1'', am_role = User, am_content = ''idea 1'',
                 am_timestamp = DateObj 1000 \<rparr>]"
    using st1_facts(1,2)
    by (simp add: st2_def processQueue_start_def Let_def st1_fields(2) to_agent_message_def
        message1_def) (simp add: st1_def st0_def addMessage_def initial_state_def Let_def)
  have ne: "response0 \<noteq> []" by (simp add: response0_def)
  have e: "st6 = st2\<lparr> markdownSummary := Some summary0 \<rparr>"
    unfolding st6_def generateBrainstorm_def summary0_def
    using c fallback_document [OF response0_unparsable ne] by simp
  show "map am_timestamp (conversationHistory (agentContext st6)) = [DateObj 1000]"
    unfolding e using c by simp
  show "map_option createdAt (markdownSummary st6) = Some (DateObj 6000)"
    unfolding e by (simp add: summary0_def)
  show "map timestamp (messages st6) = [DateObj 1000]"
    unfolding e using st2_fields(1) by (simp add: message1_def)
qed

text \<open>
  Claim C6: saving the state and loading it back gives the same timestamps as time
  values, also inside the agent context's turns and the saved summary. The code
  breaks this on a state with one processed turn and a saved summary: after saving
  and loading, the timestamps of the message history are time values again, but the
  timestamp of the turn inside the agent context and \<open>createdAt\<close> of the summary
  document are still the ISO texts, since \<^verbatim>\<open>loadFromStorage\<close> rebuilds only the
  top-level \<^verbatim>\<open>Date\<close> fields.
\<close>

theorem C6_nested_timestamps_stay_text:
  "map am_timestamp (conversationHistory (agentContext st6)) = [DateObj 1000]
   \<and> map am_timestamp (conversationHistory (agentContext st7)) = [IsoString 1000]
   \<and> map_option createdAt (markdownSummary st6) = Some (DateObj 6000)
   \<and> map_option createdAt (markdownSummary st7) = Some (IsoString 6000)
   \<and> map timestamp (messages st6) = [DateObj 1000]
   \<and> map timestamp (messages st7) = [DateObj 1000]"
proof -
  have a: "map am_timestamp (conversationHistory (agentContext st7))
           = map toJSON (map am_timestamp (conversationHistory (agentContext st6)))"
    by (simp add: st7_def loadFromStorage_def saveToStorage_def Let_def json_agent_context_def
        json_agent_message_def comp_def split: option.splits)
  have b: "map_option createdAt (markdownSummary st7)
           = map_option toJSON (map_option createdAt (markdownSummary st6))"
    by (cases "markdownSummary st6")
       (simp_all add: st7_def loadFromStorage_def saveToStorage_def Let_def json_summary_def
          initial_state_def)
  have "\<forall>msg \<in> set (messages st6). is_time_value (timestamp msg)"
  proof -
    have "\<forall>v \<in> set (map timestamp (messages st6)). is_time_value v"
      unfolding st6_fields(3) by (simp add: is_time_value_def)
    then show ?thesis by simp
  qed
  then have c: "messages st7 = messages st6"
    unfolding st7_def by (rule messages_roundtrip)
  show ?thesis
    unfolding a b c st6_fields by (simp add: toJSON_def)
qed

end
